theory Spec2Isabelle
  imports Main
begin

section \<open>Python values\<close>

subsection \<open>Strings\<close>

text \<open>
  A Python \<open>str\<close> is a sequence of Unicode code points, and \<open>len\<close> and slicing count
  code points. The strings of the program are partly Cyrillic, so a string is modelled
  as the list of its code points; ASCII literals are written through \<open>ascii\<close>.
\<close>

type_synonym ustr = "nat list"

definition ascii :: "string \<Rightarrow> ustr" where
  "ascii s = map of_char s"

text \<open>The code points for which \<open>str.isspace\<close> holds; \<open>strip()\<close> and \<open>split()\<close> use them.\<close>

definition isspace :: "nat \<Rightarrow> bool" where
  "isspace c \<longleftrightarrow>
     (9 \<le> c \<and> c \<le> 13) \<or> (28 \<le> c \<and> c \<le> 32) \<or> c = 133 \<or> c = 160 \<or> c = 5760 \<or>
     (8192 \<le> c \<and> c \<le> 8202) \<or> c = 8232 \<or> c = 8233 \<or> c = 8239 \<or> c = 8287 \<or> c = 12288"

text \<open>\<open>s.strip()\<close>\<close>

definition strip :: "ustr \<Rightarrow> ustr" where
  "strip s = rev (dropWhile isspace (rev (dropWhile isspace s)))"

text \<open>\<open>s.split()\<close>: the maximal runs of non-whitespace, \<open>w\<close> being the run read so far.\<close>

fun split_acc :: "ustr \<Rightarrow> ustr \<Rightarrow> ustr list" where
  "split_acc w [] = (if w = [] then [] else [w])"
| "split_acc w (c # cs) =
     (if isspace c then (if w = [] then split_acc [] cs else w # split_acc [] cs)
      else split_acc (w @ [c]) cs)"

definition py_split :: "ustr \<Rightarrow> ustr list" where
  "py_split s = split_acc [] s"

text \<open>\<open>sep.join(parts)\<close>\<close>

fun py_join :: "ustr \<Rightarrow> ustr list \<Rightarrow> ustr" where
  "py_join sep [] = []"
| "py_join sep [x] = x"
| "py_join sep (x # y # ys) = x @ sep @ py_join sep (y # ys)"

text \<open>\<open>str(n)\<close> for an integer: decimal digits, with a minus sign when negative.\<close>

fun digits :: "nat \<Rightarrow> ustr" where
  "digits n = (if n < 10 then [48 + n] else digits (n div 10) @ [48 + n mod 10])"

declare digits.simps [simp del]

definition py_str :: "int \<Rightarrow> ustr" where
  "py_str i = (if i < 0 then 45 # digits (nat (- i)) else digits (nat i))"

subsection \<open>Slices\<close>

text \<open>
  A slice bound \<open>i\<close> on a sequence of length \<open>n\<close>: negative bounds count from the end,
  and every bound is clamped into \<open>0..n\<close>. \<open>xs[i:j]\<close>, \<open>xs[i:]\<close> and \<open>xs[:j]\<close> follow.
\<close>

definition py_index :: "nat \<Rightarrow> int \<Rightarrow> nat" where
  "py_index n i = (if i < 0 then nat (max 0 (int n + i)) else min n (nat i))"

definition py_slice :: "'a list \<Rightarrow> int \<Rightarrow> int \<Rightarrow> 'a list" where
  "py_slice xs i j =
     (let lo = py_index (length xs) i; hi = py_index (length xs) j
      in take (hi - lo) (drop lo xs))"

definition py_slice_from :: "'a list \<Rightarrow> int \<Rightarrow> 'a list" where
  "py_slice_from xs i = drop (py_index (length xs) i) xs"

definition py_slice_to :: "'a list \<Rightarrow> int \<Rightarrow> 'a list" where
  "py_slice_to xs j = take (py_index (length xs) j) xs"

subsection \<open>Floats\<close>

text \<open>
  A Python \<open>float\<close> is an IEEE 754 double: a finite value \<open>m * 2^e\<close> with a significand
  of at most 53 bits, an infinity, or NaN. \<open>Finite m e\<close> stands for \<open>m * 2^e\<close>; the
  operations below read their arguments by value, so any pair \<open>m\<close>, \<open>e\<close> of that value
  serves. The program subtracts a distance from 1 and compares with a literal, and these
  two operations are modelled: the difference is computed exactly and rounded to 53
  bits, to the nearest value and to the even significand on a tie. (On doubles,
  \<open>1 - x\<close> neither overflows nor falls below the normal range, so the exponent needs
  no bound.)
\<close>

datatype double = Finite int int | PosInf | NegInf | NaN

text \<open>The number of bits of a positive integer.\<close>

function bitlen :: "int \<Rightarrow> nat" where
  "bitlen n = (if n \<le> 0 then 0 else Suc (bitlen (n div 2)))"
  by pat_completeness auto
termination
  by (relation "measure nat") auto

declare bitlen.simps [simp del]

text \<open>The double nearest to \<open>m * 2^e\<close>, ties to even.\<close>

definition round53 :: "int \<Rightarrow> int \<Rightarrow> double" where
  "round53 m e =
     (if bitlen \<bar>m\<bar> \<le> 53 then Finite m e
      else (let s = bitlen \<bar>m\<bar> - 53;
                q = \<bar>m\<bar> div 2 ^ s;
                r = \<bar>m\<bar> mod 2 ^ s;
                h = 2 ^ (s - 1);
                q' = (if h < r \<or> (r = h \<and> odd q) then q + 1 else q)
            in Finite (sgn m * q') (e + int s)))"

text \<open>\<open>1 - x\<close>\<close>

fun one_minus :: "double \<Rightarrow> double" where
  "one_minus (Finite m e) =
     (if 0 \<le> e then round53 (1 - m * 2 ^ nat e) 0 else round53 (2 ^ nat (- e) - m) e)"
| "one_minus PosInf = NegInf"
| "one_minus NegInf = PosInf"
| "one_minus NaN = NaN"

declare one_minus.simps [simp del]

text \<open>\<open>x > y\<close>: false when either side is NaN.\<close>

definition fgt :: "double \<Rightarrow> double \<Rightarrow> bool" where
  "fgt x y =
     (case (x, y) of
        (Finite m e, Finite n f) \<Rightarrow> n * 2 ^ nat (f - min e f) < m * 2 ^ nat (e - min e f)
      | (Finite m e, NegInf) \<Rightarrow> True
      | (PosInf, Finite n f) \<Rightarrow> True
      | (PosInf, NegInf) \<Rightarrow> True
      | _ \<Rightarrow> False)"

text \<open>
  The literals \<open>0.3\<close> and \<open>0.2\<close>: the doubles \<open>5404319552844595 * 2^-54\<close> and
  \<open>3602879701896397 * 2^-54\<close>.
\<close>

definition double_0_3 :: double where
  "double_0_3 = Finite 5404319552844595 (- 54)"

definition double_0_2 :: double where
  "double_0_2 = Finite 3602879701896397 (- 54)"

subsection \<open>Exceptions\<close>

text \<open>
  A call into a backend either returns or raises; every handler of the program catches
  \<open>Exception\<close> without looking at it, so one error value is enough.
\<close>

datatype error = BackendError

section \<open>The memory manager\<close>

text \<open>A dialogue turn \<open>{"q": message, "a": response}\<close> of the short-term memory.\<close>

record turn =
  turn_q :: ustr
  turn_a :: ustr

text \<open>A scored retrieval result, the dataclass \<open>Retrieved\<close>.\<close>

record Retrieved =
  r_text :: ustr
  r_score :: double

datatype mem0_kind = Platform | Oss | NoMem0

text \<open>
  A Chroma collection is the list of its (id, document) pairs. The episodic client, when
  there is one, is the list of the exchanges (user id, message, response) it was given.
\<close>

type_synonym collection = "(ustr \<times> ustr) list"

record memory_manager =
  mem0_kind :: mem0_kind
  mem0 :: "(ustr \<times> ustr \<times> ustr) list option"
  dialog :: "ustr \<rightharpoonup> turn list"
  kb_col :: collection
  cv_col :: collection

subsection \<open>Short-term memory\<close>

text \<open>
  \<open>add_conversation_memory\<close>. The argument \<open>mem0_add\<close> is the outcome of the call
  \<open>self.mem0.add(...)\<close>, consulted only when there is a client; an exception there is
  caught and logged.
\<close>

definition add_conversation_memory ::
  "(error + unit) \<Rightarrow> memory_manager \<Rightarrow> ustr \<Rightarrow> ustr \<Rightarrow> ustr \<Rightarrow> memory_manager" where
  "add_conversation_memory mem0_add self user_id message response =
     (let hist = (case dialog self user_id of None \<Rightarrow> [] | Some h \<Rightarrow> h)
                   @ [\<lparr>turn_q = message, turn_a = response\<rparr>];
          dialog' = (dialog self)(user_id \<mapsto>
                      (if length hist > 15 then py_slice_from hist (- 15) else hist));
          mem0' = (case mem0 self of
                     None \<Rightarrow> None
                   | Some store \<Rightarrow>
                       (case mem0_add of
                          Inl e \<Rightarrow> Some store
                        | Inr u \<Rightarrow> Some (store @ [(user_id, message, response)])))
      in self\<lparr>dialog := dialog', mem0 := mem0'\<rparr>)"

text \<open>
  A sequence of calls of \<open>add_conversation_memory\<close>, each with the outcome of its
  episodic call, its user id, message and response.
\<close>

type_synonym add_call = "(error + unit) \<times> ustr \<times> ustr \<times> ustr"

fun add_all :: "memory_manager \<Rightarrow> add_call list \<Rightarrow> memory_manager" where
  "add_all self [] = self"
| "add_all self ((out, user_id, message, response) # calls) =
     add_all (add_conversation_memory out self user_id message response) calls"

text \<open>
  The calls that append, for one user \<open>u\<close>, the exchanges \<open>(outcome, message, response)\<close>
  of a list, and the turns these exchanges leave in the buffer.
\<close>

definition call_for :: "ustr \<Rightarrow> (error + unit) \<times> ustr \<times> ustr \<Rightarrow> add_call" where
  "call_for u x = (fst x, u, fst (snd x), snd (snd x))"

definition turn_of :: "(error + unit) \<times> ustr \<times> ustr \<Rightarrow> turn" where
  "turn_of x = \<lparr>turn_q = fst (snd x), turn_a = snd (snd x)\<rparr>"

text \<open>The history of a user, \<open>self.dialog.get(user_id, [])\<close>.\<close>

definition history :: "memory_manager \<Rightarrow> ustr \<Rightarrow> turn list" where
  "history self user_id = (case dialog self user_id of None \<Rightarrow> [] | Some h \<Rightarrow> h)"

subsection \<open>Retrieval\<close>

text \<open>
  The response of \<open>collection.query(query_texts=[query], n_results=n)\<close>: the documents and
  the cosine distances of the first (and only) query, best match first. A missing key of
  the response reads as the empty list, as \<open>r.get(key, [[]])[0]\<close> does.
\<close>

record query_result =
  documents :: "ustr list"
  distances :: "double list"

text \<open>
  The backends the manager calls: Chroma's query on a collection (the embedding search
  is outside the program) and the search of the episodic client, whose \<open>limit\<close> is
  passed by the hosted client only. Each call returns or raises.
\<close>

record backend =
  chroma_query :: "collection \<Rightarrow> ustr \<Rightarrow> int \<Rightarrow> error + query_result"
  episodic_search :: "ustr \<Rightarrow> ustr \<Rightarrow> int option \<Rightarrow> error + ustr list"

text \<open>
  \<open>_mem0_search\<close>: nothing without a client; otherwise the memories of the results, at
  most \<open>k\<close> of them (\<open>[:k]\<close>), and nothing when the call raises.
\<close>

definition mem0_search :: "backend \<Rightarrow> memory_manager \<Rightarrow> ustr \<Rightarrow> ustr \<Rightarrow> int \<Rightarrow> ustr list" where
  "mem0_search be self query user_id k =
     (case mem0 self of
        None \<Rightarrow> []
      | Some store \<Rightarrow>
          (case episodic_search be query user_id
                  (if mem0_kind self = Platform then Some k else None) of
             Inl e \<Rightarrow> []
           | Inr memories \<Rightarrow> py_slice_to memories k))"

text \<open>
  \<open>_kb_search\<close> and \<open>_cv_search\<close>: the score of a document is \<open>1 - dist\<close>; the
  comprehension keeps the pairs of \<open>zip(docs, dists)\<close> whose score is above the threshold.
  Distances and scores are doubles.
\<close>

definition kb_search :: "backend \<Rightarrow> memory_manager \<Rightarrow> ustr \<Rightarrow> int \<Rightarrow> Retrieved list" where
  "kb_search be self query k =
     (if length (kb_col self) = 0 then []
      else (case chroma_query be (kb_col self) query (min k (int (length (kb_col self)))) of
              Inl e \<Rightarrow> []
            | Inr r \<Rightarrow>
                [\<lparr>r_text = d, r_score = one_minus dst\<rparr>.
                   (d, dst) \<leftarrow> zip (documents r) (distances r),
                   fgt (one_minus dst) double_0_3]))"

definition cv_search :: "backend \<Rightarrow> memory_manager \<Rightarrow> ustr \<Rightarrow> int \<Rightarrow> Retrieved list" where
  "cv_search be self query k =
     (if length (cv_col self) = 0 then []
      else (case chroma_query be (cv_col self) query (min k (int (length (cv_col self)))) of
              Inl e \<Rightarrow> []
            | Inr r \<Rightarrow>
                [\<lparr>r_text = d, r_score = one_minus dst\<rparr>.
                   (d, dst) \<leftarrow> zip (documents r) (distances r),
                   fgt (one_minus dst) double_0_2]))"

subsection \<open>Context assembly\<close>

text \<open>
  The fixed strings of \<open>get_relevant_context\<close>: the four section headers (the CV header
  reads "=== DANNYE IZ CV FIRDAVSA ===" in Cyrillic; the three later ones begin with a
  newline), the bullet "\<bullet> " and the sentinel "Kontekst ne najden." (no context found).
\<close>

definition cv_header :: ustr where
  "cv_header =
     ascii ''=== '' @ [1044, 1040, 1053, 1053, 1067, 1045, 32, 1048, 1047] @ ascii '' CV ''
     @ [1060, 1048, 1056, 1044, 1040, 1042, 1057, 1040] @ ascii '' ===''"

definition kb_header :: ustr where
  "kb_header =
     [10] @ ascii ''=== '' @ [1044, 1054, 1055, 1054, 1051, 1053, 1048, 1058, 1045, 1051,
     1068, 1053, 1067, 1045, 32, 1044, 1054, 1050, 1059, 1052, 1045, 1053, 1058, 1067]
     @ ascii '' ===''"

definition ep_header :: ustr where
  "ep_header =
     [10] @ ascii ''=== '' @ [1048, 1057, 1058, 1054, 1056, 1048, 1071, 32, 1044, 1048, 1040,
     1051, 1054, 1043, 1040] @ ascii '' (mem0) ===''"

definition tail_header :: ustr where
  "tail_header =
     [10] @ ascii ''=== '' @ [1053, 1045, 1044, 1040, 1042, 1053, 1048, 1045, 32, 1057, 1054,
     1054, 1041, 1065, 1045, 1053, 1048, 1071] @ ascii '' ===''"

definition no_context :: ustr where
  "no_context =
     [1050, 1086, 1085, 1090, 1077, 1082, 1089, 1090, 32, 1085, 1077, 32, 1085, 1072, 1081,
     1076, 1077, 1085, 46]"

definition bullet :: ustr where
  "bullet = [8226, 32]"

text \<open>
  The last three turns of the history, each rendered as
  \<open>f"User: {item['q']}\nAssistant: {item['a'][:200]}"\<close>.
\<close>

definition dialog_tail :: "turn list \<Rightarrow> ustr list" where
  "dialog_tail hist =
     map (\<lambda>item. ascii ''User: '' @ turn_q item @ [10] @ ascii ''Assistant: ''
                    @ py_slice_to (turn_a item) 200)
       (py_slice_from hist (- 3))"

text \<open>The list \<open>parts\<close>, built section by section; an empty source adds nothing.\<close>

definition context_parts ::
  "Retrieved list \<Rightarrow> Retrieved list \<Rightarrow> ustr list \<Rightarrow> ustr list \<Rightarrow> ustr list" where
  "context_parts cv kb ep tail =
     (if cv \<noteq> [] then cv_header # map (\<lambda>x. bullet @ strip (r_text x)) cv else []) @
     (if kb \<noteq> [] then
        kb_header # map (\<lambda>x. bullet @ py_slice_to (strip (r_text x)) 300) (py_slice_to kb 5)
      else []) @
     (if ep \<noteq> [] then ep_header # map (\<lambda>x. bullet @ strip x) ep else []) @
     (if tail \<noteq> [] then tail_header # tail else [])"

text \<open>The context of a list of parts, \<open>"\n".join(parts) if parts else <sentinel>\<close>.\<close>

definition context_text :: "ustr list \<Rightarrow> ustr" where
  "context_text parts = (if parts \<noteq> [] then py_join [10] parts else no_context)"

text \<open>
  The list \<open>parts\<close> of a call of \<open>get_relevant_context(query, user_id, k_ep, k_kb, k_cv)\<close>,
  and the context the call returns.
\<close>

definition assembled_parts ::
  "backend \<Rightarrow> memory_manager \<Rightarrow> ustr \<Rightarrow> ustr \<Rightarrow> int \<Rightarrow> int \<Rightarrow> int \<Rightarrow> ustr list" where
  "assembled_parts be self query user_id k_ep k_kb k_cv =
     (let ep = mem0_search be self query user_id k_ep;
          kb = kb_search be self query k_kb;
          cv = cv_search be self query k_cv;
          tail = dialog_tail (history self user_id)
      in context_parts cv kb ep tail)"

definition get_relevant_context ::
  "backend \<Rightarrow> memory_manager \<Rightarrow> ustr \<Rightarrow> ustr \<Rightarrow> int \<Rightarrow> int \<Rightarrow> int \<Rightarrow> ustr" where
  "get_relevant_context be self query user_id k_ep k_kb k_cv =
     context_text (assembled_parts be self query user_id k_ep k_kb k_cv)"

text \<open>
  Modelled from the spec: "Render sections in fixed priority order. Each section header is
  a fixed label; omit a section entirely if its list is empty." A section is a header with
  its lines; the sections with no line are dropped, the others are laid out in the order
  given, one part to a line, and the sentinel stands for a context with no section.
\<close>

definition render_sections :: "(ustr \<times> ustr list) list \<Rightarrow> ustr" where
  "render_sections secs =
     (let present = filter (\<lambda>(h, ls). ls \<noteq> []) secs
      in if present = [] then no_context
         else py_join [10] (concat (map (\<lambda>(h, ls). h # ls) present)))"

text \<open>The results of a response with their scores, in the order of the response.\<close>

definition scored :: "query_result \<Rightarrow> Retrieved list" where
  "scored r =
     map (\<lambda>(d, dst). \<lparr>r_text = d, r_score = one_minus dst\<rparr>) (zip (documents r) (distances r))"

subsection \<open>Fixtures\<close>

text \<open>
  A backend that answers every query with the same documents and distances and every
  episodic search with the same memories; a manager with no episodic client, no history
  and empty collections, as it is before the first indexing; and a manager with an
  episodic client, one turn of user \<open>u1\<close> and one document in each collection.
\<close>

definition fixed_backend :: "ustr list \<Rightarrow> double list \<Rightarrow> ustr list \<Rightarrow> backend" where
  "fixed_backend docs dists memories =
     \<lparr>chroma_query = (\<lambda>col q n. Inr \<lparr>documents = docs, distances = dists\<rparr>),
      episodic_search = (\<lambda>q u k. Inr memories)\<rparr>"

definition new_manager :: memory_manager where
  "new_manager = \<lparr>mem0_kind = NoMem0, mem0 = None, dialog = Map.empty, kb_col = [], cv_col = []\<rparr>"

definition demo_manager :: memory_manager where
  "demo_manager =
     \<lparr>mem0_kind = Oss, mem0 = Some [],
      dialog = Map.empty(ascii ''u1'' \<mapsto> [\<lparr>turn_q = ascii ''hi'', turn_a = ascii ''hello''\<rparr>]),
      kb_col = [(ascii ''kb_1'', ascii ''doc'')], cv_col = [(ascii ''cv_1'', ascii ''doc'')]\<rparr>"

section \<open>Chunking\<close>

text \<open>
  \<open>_chunk_texts(texts, prefix, chunk_chars=800, overlap=200)\<close>. Each raw text is
  whitespace-normalised by \<open>" ".join((raw or "").split())\<close> (a raw text that is
  \<open>None\<close> reads as the empty string); a text that is empty then is skipped. The
  \<open>while\<close> loop slides a window of \<open>chunk_chars\<close> characters by
  \<open>step = max(100, chunk_chars - overlap)\<close> and keeps a window when \<open>len(chunk) > 50\<close>,
  numbering the kept ones \<open>prefix_idx\<close>. The state of the loops is \<open>(docs, ids, idx)\<close>.
\<close>

definition normalize_ws :: "ustr \<Rightarrow> ustr" where
  "normalize_ws raw = py_join [32] (py_split raw)"

definition chunk_step :: "int \<Rightarrow> int \<Rightarrow> nat" where
  "chunk_step chunk_chars overlap = nat (max 100 (chunk_chars - overlap))"

function chunk_while ::
  "ustr \<Rightarrow> ustr \<Rightarrow> int \<Rightarrow> int \<Rightarrow> nat \<Rightarrow> ustr list \<times> ustr list \<times> int
     \<Rightarrow> ustr list \<times> ustr list \<times> int" where
  "chunk_while text pfx chunk_chars overlap start (docs, ids, idx) =
     (if start < length text then
        (let chunk = py_slice text (int start) (int start + chunk_chars)
         in chunk_while text pfx chunk_chars overlap (start + chunk_step chunk_chars overlap)
              (if length chunk > 50
               then (docs @ [chunk], ids @ [pfx @ ascii ''_'' @ py_str idx], idx + 1)
               else (docs, ids, idx)))
      else (docs, ids, idx))"
  by pat_completeness auto
termination
  by (relation "measure (\<lambda>(text, pfx, chunk_chars, overlap, start, acc). length text - start)")
    (auto simp: chunk_step_def)

fun chunk_for ::
  "ustr \<Rightarrow> int \<Rightarrow> int \<Rightarrow> ustr list \<Rightarrow> ustr list \<times> ustr list \<times> int
     \<Rightarrow> ustr list \<times> ustr list \<times> int" where
  "chunk_for pfx chunk_chars overlap [] acc = acc"
| "chunk_for pfx chunk_chars overlap (raw # texts) acc =
     (let text = normalize_ws raw
      in if text = [] then chunk_for pfx chunk_chars overlap texts acc
         else chunk_for pfx chunk_chars overlap texts
                (chunk_while text pfx chunk_chars overlap 0 acc))"

definition chunk_texts :: "ustr list \<Rightarrow> ustr \<Rightarrow> int \<Rightarrow> int \<Rightarrow> ustr list \<times> ustr list" where
  "chunk_texts texts pfx chunk_chars overlap =
     (case chunk_for pfx chunk_chars overlap texts ([], [], 1) of
        (docs, ids, idx) \<Rightarrow> (docs, ids))"

text \<open>
  The windows of the specification: every slice \<open>text[start : start + chunk_chars]\<close> at
  the starts \<open>0, step, 2 step, ...\<close> below \<open>len(text)\<close>, kept or not.
\<close>

function windows :: "ustr \<Rightarrow> int \<Rightarrow> int \<Rightarrow> nat \<Rightarrow> ustr list" where
  "windows text chunk_chars overlap start =
     (if start < length text
      then py_slice text (int start) (int start + chunk_chars)
             # windows text chunk_chars overlap (start + chunk_step chunk_chars overlap)
      else [])"
  by pat_completeness auto
termination
  by (relation "measure (\<lambda>(text, chunk_chars, overlap, start). length text - start)")
    (auto simp: chunk_step_def)


text \<open>
  Document ingestion chunks one text at a time with the default sizes,
  \<open>self._chunk_texts([text], prefix=...)\<close>; these are the documents it adds.
\<close>

definition ingest_chunks :: "ustr \<Rightarrow> ustr \<Rightarrow> ustr list" where
  "ingest_chunks raw pfx = fst (chunk_texts [raw] pfx 800 200)"

declare chunk_while.simps [simp del] windows.simps [simp del]

abbreviation kept :: "ustr list \<Rightarrow> ustr list" where
  "kept ws \<equiv> filter (\<lambda>c. 50 < length c) ws"

text \<open>
  How two consecutive chunks \<open>c\<close>, \<open>d\<close> of one text overlap at the default sizes: a
  later chunk of at least 200 characters starts with the last 200 of \<open>c\<close>; a shorter one
  is what is left of \<open>c\<close> after its first 600 characters.
\<close>

definition overlap_ok :: "ustr \<Rightarrow> ustr \<Rightarrow> bool" where
  "overlap_ok c d \<longleftrightarrow>
     (200 \<le> length d \<longrightarrow> drop (length c - 200) c = take 200 d) \<and>
     (length d < 200 \<longrightarrow> d = drop 600 c)"

section \<open>User preferences\<close>

text \<open>
  \<open>utils/user_prefs.py\<close>. A preference record is a dictionary from field names to
  values, a value being a string or \<open>None\<close>; the file holds a JSON object from
  \<open>str(user_id)\<close> to records. The file is missing, unreadable as JSON, or holds such an
  object (what \<open>set\<close> writes).
\<close>

datatype pyval = PyNone | PyStr ustr

type_synonym prefs = "ustr \<rightharpoonup> pyval"

type_synonym prefs_db = "ustr \<rightharpoonup> prefs"

datatype prefs_file = Missing | Unreadable | Json prefs_db

text \<open>\<open>_DEFAULT\<close>\<close>

definition DEFAULT :: prefs where
  "DEFAULT = [ascii ''lang'' \<mapsto> PyStr (ascii ''ru-RU''),
              ascii ''voice'' \<mapsto> PyStr (ascii ''ru-RU-Wavenet-D''),
              ascii ''style'' \<mapsto> PyStr (ascii ''neutral'')]"

text \<open>
  \<open>_load\<close>: a missing file is created holding \<open>{}\<close>; a file that does not parse reads
  as \<open>{}\<close>. The result is the file afterwards and the dictionary read.
\<close>

definition load :: "prefs_file \<Rightarrow> prefs_file \<times> prefs_db" where
  "load f =
     (case f of
        Missing \<Rightarrow> (Json Map.empty, Map.empty)
      | Unreadable \<Rightarrow> (Unreadable, Map.empty)
      | Json db \<Rightarrow> (Json db, db))"

text \<open>\<open>db.get(str(user_id), {})\<close>\<close>

definition stored :: "prefs_db \<Rightarrow> int \<Rightarrow> prefs" where
  "stored db user_id = (case db (py_str user_id) of None \<Rightarrow> Map.empty | Some p \<Rightarrow> p)"

text \<open>\<open>get(user_id)\<close>: \<open>{**_DEFAULT, **db.get(str(user_id), {})}\<close>.\<close>

definition prefs_get :: "prefs_file \<Rightarrow> int \<Rightarrow> prefs_file \<times> prefs" where
  "prefs_get f user_id =
     (case load f of (f', db) \<Rightarrow> (f', DEFAULT ++ stored db user_id))"

text \<open>\<open>{k: v for k, v in kwargs.items() if v is not None}\<close>\<close>

definition not_none :: "prefs \<Rightarrow> prefs" where
  "not_none kwargs = (\<lambda>k. case kwargs k of Some PyNone \<Rightarrow> None | v \<Rightarrow> v)"

text \<open>
  \<open>set(user_id, **kwargs)\<close>: the record of the user with the defaults, updated by the
  arguments that are not \<open>None\<close>, is stored under \<open>str(user_id)\<close>, written back and
  returned.
\<close>

definition prefs_set :: "prefs_file \<Rightarrow> int \<Rightarrow> prefs \<Rightarrow> prefs_file \<times> prefs" where
  "prefs_set f user_id kwargs =
     (case load f of
        (f', db) \<Rightarrow>
          (let cur = (DEFAULT ++ stored db user_id) ++ not_none kwargs;
               db' = db(py_str user_id \<mapsto> cur)
           in (Json db', cur)))"

section \<open>The agent\<close>

text \<open>
  \<open>FirdavsAIAgent.generate_response\<close>. The prompt is the f-string \<open>SYSTEM_PROMPT\<close>: a fixed
  persona text, the date, the assembled context and the message of the user.
\<close>

definition prompt_head :: ustr where
  "prompt_head =
     [1058, 1099, 32, 1083, 1080, 1095, 1085, 1099, 1081] @ ascii '' AI-'' @ [1072, 1089,
     1089, 1080, 1089, 1090, 1077, 1085, 1090, 32, 1060, 1080, 1088, 1076, 1072, 1074, 1089,
     1072, 32, 1060, 1072, 1081, 1079, 1091, 1083, 1083, 1072, 1077, 1074, 1072, 32, 8212,
     32, 1086, 1087, 1099, 1090, 1085, 1086, 1075, 1086] @ ascii '' AI/ML '' @ [1080, 1085,
     1078, 1077, 1085, 1077, 1088, 1072, 46, 10, 1058, 1074, 1086, 1103, 32, 1079, 1072,
     1076, 1072, 1095, 1072, 32, 8212, 32, 1087, 1086, 1084, 1086, 1075, 1072, 1090, 1100,
     32, 1083, 1102, 1076, 1103, 1084, 32, 1091, 1079, 1085, 1072, 1090, 1100, 32, 1086, 32,
     1077, 1075, 1086, 32, 1085, 1072, 1074, 1099, 1082, 1072, 1093, 44, 32, 1086, 1087,
     1099, 1090, 1077, 32, 1080, 32, 1087, 1088, 1086, 1077, 1082, 1090, 1072, 1093, 46, 10,
     10, 1057, 1058, 1048, 1051, 1068, 32, 1054, 1041, 1065, 1045, 1053, 1048, 1071, 58, 10,
     45, 32, 1041, 1091, 1076, 1100, 32, 1076, 1088, 1091, 1078, 1077, 1083, 1102, 1073,
     1085, 1099, 1084, 32, 1080, 32, 1077, 1089, 1090, 1077, 1089, 1090, 1074, 1077, 1085,
     1085, 1099, 1084, 44, 32, 1082, 1072, 1082, 32, 1073, 1091, 1076, 1090, 1086, 32, 1088,
     1072, 1089, 1089, 1082, 1072, 1079, 1099, 1074, 1072, 1077, 1096, 1100, 32, 1086, 32,
     1090, 1072, 1083, 1072, 1085, 1090, 1083, 1080, 1074, 1086, 1084, 32, 1082, 1086, 1083,
     1083, 1077, 1075, 1077, 10, 45, 32, 1048, 1089, 1087, 1086, 1083, 1100, 1079, 1091,
     1081, 32, 1088, 1072, 1079, 1075, 1086, 1074, 1086, 1088, 1085, 1099, 1077, 32, 1086,
     1073, 1086, 1088, 1086, 1090, 1099, 58, 32, 39, 1082, 1089, 1090, 1072, 1090, 1080, 39,
     44, 32, 39, 1084, 1077, 1078, 1076, 1091, 32, 1087, 1088, 1086, 1095, 1080, 1084, 39,
     44, 32, 39, 1074, 1086, 1086, 1073, 1097, 1077, 39, 44, 32, 39, 1085, 1072, 32, 1089,
     1072, 1084, 1086, 1084, 32, 1076, 1077, 1083, 1077, 39, 10, 45, 32, 1055, 1086, 1082,
     1072, 1079, 1099, 1074, 1072, 1081, 32, 1101, 1085, 1090, 1091, 1079, 1080, 1072, 1079,
     1084, 32, 1082, 1086, 1075, 1076, 1072, 32, 1075, 1086, 1074, 1086, 1088, 1080, 1096,
     1100, 32, 1086, 32, 1082, 1088, 1091, 1090, 1099, 1093, 32, 1087, 1088, 1086, 1077,
     1082, 1090, 1072, 1093, 32, 1080, 1083, 1080, 32, 1076, 1086, 1089, 1090, 1080, 1078,
     1077, 1085, 1080, 1103, 1093, 10, 45, 32, 1053, 1045, 32, 1085, 1072, 1095, 1080, 1085,
     1072, 1081, 32, 1082, 1072, 1078, 1076, 1099, 1081, 32, 1086, 1090, 1074, 1077, 1090,
     32, 1089, 32, 39, 1050, 1086, 1085, 1077, 1095, 1085, 1086, 33, 39, 44, 32, 39, 1054,
     1090, 1083, 1080, 1095, 1085, 1086, 33, 39, 32, 1080, 1083, 1080, 32, 1076, 1088, 1091,
     1075, 1080, 1093, 32, 1096, 1072, 1073, 1083, 1086, 1085, 1085, 1099, 1093, 32, 1092,
     1088, 1072, 1079, 10, 45, 32, 1042, 1072, 1088, 1100, 1080, 1088, 1091, 1081, 32, 1089,
     1090, 1088, 1091, 1082, 1090, 1091, 1088, 1091, 32, 1086, 1090, 1074, 1077, 1090, 1086,
     1074] @ ascii '' - '' @ [1085, 1077, 32, 1074, 1089, 1077, 1075, 1076, 1072, 32, 1076,
     1077, 1083, 1072, 1081, 32, 1089, 1087, 1080, 1089, 1082, 1080, 44, 32, 1080, 1085,
     1086, 1075, 1076, 1072, 32, 1087, 1088, 1086, 1089, 1090, 1086, 32, 1088, 1072, 1089,
     1089, 1082, 1072, 1079, 1099, 1074, 1072, 1081, 10, 45, 32, 1052, 1086, 1078, 1077,
     1096, 1100, 32, 1080, 1089, 1087, 1086, 1083, 1100, 1079, 1086, 1074, 1072, 1090, 1100,
     32, 1101, 1084, 1086, 1076, 1079, 1080, 44, 32, 1085, 1086, 32, 1074, 32, 1084, 1077,
     1088, 1091] @ ascii '' (1-2 '' @ [1085, 1072, 32, 1089, 1086, 1086, 1073, 1097, 1077,
     1085, 1080, 1077, 32, 1084, 1072, 1082, 1089, 1080, 1084, 1091, 1084, 41, 10, 10, 1042,
     1040, 1046, 1053, 1067, 1045, 32, 1055, 1056, 1040, 1042, 1048, 1051, 1040, 58, 10, 45,
     32, 1054, 1087, 1080, 1088, 1072, 1081, 1089, 1103, 32, 1085, 1072, 32, 1092, 1072,
     1082, 1090, 1099, 32, 1080, 1079, 32, 1082, 1086, 1085, 1090, 1077, 1082, 1089, 1090,
     1072] @ ascii '' CV '' @ [1080, 32, 1073, 1072, 1079, 1099, 32, 1079, 1085, 1072, 1085,
     1080, 1081, 44, 32, 1085, 1086, 32, 1087, 1086, 1076, 1072, 1074, 1072, 1081, 32, 1080,
     1093, 32, 1078, 1080, 1074, 1086, 32, 1080, 32, 1080, 1085, 1090, 1077, 1088, 1077,
     1089, 1085, 1086, 10, 45, 32, 1045, 1089, 1083, 1080, 32, 1095, 1077, 1075, 1086, 45,
     1090, 1086, 32, 1085, 1077, 32, 1079, 1085, 1072, 1077, 1096, 1100, 32, 8212, 32, 1095,
     1077, 1089, 1090, 1085, 1086, 32, 1089, 1082, 1072, 1078, 1080, 32, 1080, 32, 1087,
     1088, 1077, 1076, 1083, 1086, 1078, 1080, 32, 1088, 1072, 1089, 1089, 1082, 1072, 1079,
     1072, 1090, 1100, 32, 1095, 1090, 1086, 45, 1090, 1086, 32, 1076, 1088, 1091, 1075,
     1086, 1077, 10, 45, 32, 1044, 1086, 1073, 1072, 1074, 1083, 1103, 1081, 32, 1082, 1086,
     1085, 1090, 1077, 1082, 1089, 1090, 32, 1080, 32, 1086, 1073, 1098, 1103, 1089, 1085,
     1077, 1085, 1080, 1103, 58, 32, 39, 1069, 1090, 1086, 32, 1086, 1089, 1086, 1073, 1077,
     1085, 1085, 1086, 32, 1074, 1087, 1077, 1095, 1072, 1090, 1083, 1103, 1077, 1090, 44,
     32, 1087, 1086, 1090, 1086, 1084, 1091, 32, 1095, 1090, 1086] @ ascii ''...'' @ [39, 10,
     45, 32, 1055, 1088, 1080, 32, 1091, 1087, 1086, 1084, 1080, 1085, 1072, 1085, 1080,
     1080, 32, 1090, 1077, 1093, 1085, 1080, 1095, 1077, 1089, 1082, 1080, 1093, 32, 1076,
     1086, 1089, 1090, 1080, 1078, 1077, 1085, 1080, 1081, 32, 1086, 1073, 1098, 1103, 1089,
     1085, 1103, 1081, 44, 32, 1087, 1086, 1095, 1077, 1084, 1091, 32, 1101, 1090, 1086, 32,
     1082, 1088, 1091, 1090, 1086, 32, 1076, 1083, 1103, 32, 1073, 1080, 1079, 1085, 1077,
     1089, 1072, 10, 45, 32, 1059, 1087, 1086, 1084, 1080, 1085, 1072, 1081, 32, 1082, 1086,
     1085, 1082, 1088, 1077, 1090, 1085, 1099, 1077, 32, 1094, 1080, 1092, 1088, 1099, 32,
     1080, 32, 1084, 1077, 1090, 1088, 1080, 1082, 1080, 32, 1080, 1079] @ ascii '' CV ''
     @ [1082, 1086, 1075, 1076, 1072, 32, 1101, 1090, 1086, 32, 1091, 1084, 1077, 1089, 1090,
     1085, 1086, 10, 45, 32, 1053, 1045, 32, 1087, 1088, 1080, 1076, 1091, 1084, 1099, 1074,
     1072, 1081, 32, 1092, 1072, 1082, 1090, 1099, 44, 32, 1082, 1086, 1090, 1086, 1088,
     1099, 1093, 32, 1085, 1077, 1090, 32, 1074, 32, 1082, 1086, 1085, 1090, 1077, 1082,
     1089, 1090, 1077, 10, 10, 1057, 1077, 1075, 1086, 1076, 1085, 1103, 58, 32]"

definition prompt_context :: ustr where
  "prompt_context =
     [10, 10, 1050, 1054, 1053, 1058, 1045, 1050, 1057, 1058, 32, 1054, 32, 1060, 1048, 1056,
     1044, 1040, 1042, 1057, 1045, 58, 10]"

definition prompt_question :: ustr where
  "prompt_question =
     [10, 10, 1042, 1054, 1055, 1056, 1054, 1057, 32, 1055, 1054, 1051, 1068, 1047, 1054,
     1042, 1040, 1058, 1045, 1051, 1071, 58, 10]"

definition prompt_answer :: ustr where
  "prompt_answer =
     [10, 10, 1058, 1042, 1054, 1049, 32, 1054, 1058, 1042, 1045, 1058, 32, 40, 1077, 1089,
     1090, 1077, 1089, 1090, 1074, 1077, 1085, 1085, 1099, 1081, 32, 1080, 32, 1080, 1085,
     1092, 1086, 1088, 1084, 1072, 1090, 1080, 1074, 1085, 1099, 1081, 41, 58]"

definition SYSTEM_PROMPT :: "ustr \<Rightarrow> ustr \<Rightarrow> ustr \<Rightarrow> ustr" where
  "SYSTEM_PROMPT today context user_message =
     prompt_head @ today @ prompt_context @ context @ prompt_question @ user_message
       @ prompt_answer"

text \<open>
  The two fallback texts: the one for an empty answer ("Hm, something went wrong. ...")
  and the one for an exception ("Oops, technical problems ... try asking again?").
\<close>

definition fallback_empty :: ustr where
  "fallback_empty =
     [1061, 1084, 44, 32, 1095, 1090, 1086, 45, 1090, 1086, 32, 1087, 1086, 1096, 1083, 1086,
     32, 1085, 1077, 32, 1090, 1072, 1082, 46, 32, 1044, 1072, 1074, 1072, 1081, 32, 1103,
     32, 1083, 1091, 1095, 1096, 1077, 32, 1088, 1072, 1089, 1089, 1082, 1072, 1078, 1091,
     32, 1087, 1088, 1086, 32, 1086, 1087, 1099, 1090, 32, 1060, 1080, 1088, 1076, 1072,
     1074, 1089, 1072, 32, 1074] @ ascii '' AI?''"

definition fallback_error :: ustr where
  "fallback_error =
     [1059, 1087, 1089, 44, 32, 1090, 1077, 1093, 1085, 1080, 1095, 1077, 1089, 1082, 1080,
     1077, 32, 1085, 1077, 1087, 1086, 1083, 1072, 1076, 1082, 1080, 32, 129300, 32, 1055,
     1086, 1087, 1088, 1086, 1073, 1091, 1081, 32, 1089, 1087, 1088, 1086, 1089, 1080, 1090,
     1100, 32, 1077, 1097, 1077, 32, 1088, 1072, 1079, 63]"

text \<open>
  The generation model maps a prompt to the outcome of
  \<open>self.model.generate_content(prompt)\<close> and of reading \<open>resp.text\<close>: an exception, or
  the text, which may be \<open>None\<close>. \<open>today\<close> is the formatted date and \<open>memory\<close> the
  memory manager of the agent; the result is the manager afterwards and the reply.
\<close>

definition generate_response ::
  "(ustr \<Rightarrow> error + ustr option) \<Rightarrow> backend \<Rightarrow> (error + unit) \<Rightarrow> ustr \<Rightarrow> memory_manager \<Rightarrow>
     ustr \<Rightarrow> ustr \<Rightarrow> memory_manager \<times> ustr" where
  "generate_response model be mem0_add today memory user_message user_id =
     (let context = get_relevant_context be memory user_message user_id 5 8 6;
          text = (case model (SYSTEM_PROMPT today context user_message) of
                    Inr t \<Rightarrow>
                      (let text = strip (case t of None \<Rightarrow> [] | Some s \<Rightarrow> s)
                       in if text = [] then fallback_empty else text)
                  | Inl e \<Rightarrow> fallback_error)
      in (add_conversation_memory mem0_add memory user_id user_message text, text))"

section \<open>Indexing the CV\<close>

text \<open>
  \<open>CV_DATA\<close> of \<open>config.py\<close>: the profile as nested dictionaries, here nested records.
\<close>

record personal_info =
  pi_name :: ustr
  pi_title :: ustr
  pi_experience_years :: ustr
  pi_location :: ustr
  pi_expertise :: ustr

record contacts =
  c_email :: ustr
  c_telegram :: ustr
  c_availability :: ustr

record work_entry =
  w_company :: ustr
  w_period :: ustr
  w_position :: ustr
  w_highlights :: "ustr list"

record skills =
  sk_models :: "ustr list"
  sk_frameworks :: "ustr list"
  sk_infra :: "ustr list"

record education =
  ed_university :: ustr
  ed_degree :: ustr
  ed_period :: ustr

record cv_data =
  personal_info :: personal_info
  contacts :: contacts
  work_experience :: "work_entry list"
  skills :: skills
  education :: education

definition CV_DATA :: cv_data where
  "CV_DATA =
     \<lparr>personal_info =
        \<lparr>pi_name = [1060, 1080, 1088, 1076, 1072, 1074, 1089, 32, 1060, 1072, 1081, 1079, 1091, 1083,
        1083, 1072, 1077, 1074],
         pi_title =
           ascii ''AI/ML Engineer | '' @ [1040, 1088, 1093, 1080, 1090, 1077, 1082, 1090,
           1086, 1088] @ ascii '' LLM-'' @ [1089, 1080, 1089, 1090, 1077, 1084],
         pi_experience_years = [53, 43],
         pi_location = [1052, 1086, 1089, 1082, 1074, 1072],
         pi_expertise =
           ascii ''Production LLM, RAG, '' @ [1084, 1091, 1083, 1100, 1090, 1080, 1072, 1075,
           1077, 1085, 1090, 1085, 1099, 1077, 32, 1089, 1080, 1089, 1090, 1077, 1084, 1099]\<rparr>,
      contacts =
        \<lparr>c_email = ascii ''firdavs.fayzullaev@gmail.com'',
         c_telegram = ascii ''@FirdavsAIDev'',
         c_availability =
           [1054, 1090, 1082, 1088, 1099, 1090, 32, 1076, 1083, 1103] @ ascii '' AI/ML ''
           @ [1087, 1088, 1086, 1077, 1082, 1090, 1086, 1074, 32, 1080, 32, 1090, 1077, 1093,
           1085, 1080, 1095, 1077, 1089, 1082, 1086, 1075, 1086, 32, 1083, 1080, 1076, 1077,
           1088, 1089, 1090, 1074, 1072]\<rparr>,
      work_experience =
       [\<lparr>w_company = ascii ''AI Dynamics'',
         w_period = [1060, 1077, 1074, 1088, 1072, 1083, 1100] @ ascii '' 2024 '' @ [8212, 32, 1054,
        1082, 1090, 1103, 1073, 1088, 1100] @ ascii '' 2024'',
         w_position = ascii ''AI/ML Engineer'',
         w_highlights =
           [ascii ''Advanced Multi-Modal RAG Platform'',
           ascii ''Autonomous Agent Network'',
           ascii ''Real-time Voice AI'']\<rparr>,
        \<lparr>w_company = ascii ''TechForward Solutions'',
         w_period = [1052, 1072, 1088, 1090] @ ascii '' 2022 '' @ [8212, 32, 1071, 1085, 1074, 1072,
        1088, 1100] @ ascii '' 2024'',
         w_position = ascii ''ML Engineer'',
         w_highlights =
           [ascii ''Enterprise Knowledge Management'',
           ascii ''Financial Document Intelligence'',
           ascii ''Conversational AI Platform'']\<rparr>,
        \<lparr>w_company = ascii ''Analytics Pro'',
         w_period = [1057, 1077, 1085, 1090, 1103, 1073, 1088, 1100] @ ascii '' 2020 '' @ [8212, 32,
        1060, 1077, 1074, 1088, 1072, 1083, 1100] @ ascii '' 2022'',
         w_position = ascii ''Data Scientist'',
         w_highlights =
           [ascii ''Predictive Analytics'',
           ascii ''NLP Classification'',
           ascii ''Recommendation Engine'']\<rparr>],
      skills =
        \<lparr>sk_models =
           [ascii ''Llama'',
           ascii ''DeepSeek'',
           ascii ''Qwen'',
           ascii ''Claude'',
           ascii ''GPT''],
         sk_frameworks =
           [ascii ''LangChain'',
           ascii ''LangGraph'',
           ascii ''CrewAI'',
           ascii ''AutoGen'',
           ascii ''DSPy''],
         sk_infra =
           [ascii ''FastAPI'',
           ascii ''Docker'',
           ascii ''Kubernetes'',
           ascii ''vLLM'',
           ascii ''TGI'',
           ascii ''AWS'',
           ascii ''GCP'']\<rparr>,
      education =
        \<lparr>ed_university = [1056, 1059, 1044, 1053],
         ed_degree = [1055, 1088, 1080, 1082, 1083, 1072, 1076, 1085, 1072, 1103, 32, 1080, 1085, 1092,
        1086, 1088, 1084, 1072, 1090, 1080, 1082, 1072],
         ed_period = ascii ''2018'' @ [8211] @ ascii ''2022''\<rparr>\<rparr>"

text \<open>
  The fragments of \<open>_index_cv_thoroughly\<close>, as pairs of an id and a document in the order
  in which the function appends them to \<open>ids\<close> and \<open>docs\<close>. The loops over
  \<open>enumerate(...)\<close> carry their index.
\<close>

fun highlight_fragments :: "work_entry \<Rightarrow> int \<Rightarrow> int \<Rightarrow> ustr list \<Rightarrow> (ustr \<times> ustr) list" where
  "highlight_fragments w i j [] = []"
| "highlight_fragments w i j (highlight # rest) =
     (ascii ''cv_work_'' @ py_str i @ ascii ''_hl_'' @ py_str j,
             [1042, 32] @ w_company w @ [32, 1060, 1080, 1088, 1076, 1072, 1074, 1089, 32, 1088,
             1072, 1073, 1086, 1090, 1072, 1083, 32, 1085, 1072, 1076, 58, 32] @ highlight)
       # highlight_fragments w i (j + 1) rest"

fun work_fragments :: "int \<Rightarrow> work_entry list \<Rightarrow> (ustr \<times> ustr) list" where
  "work_fragments i [] = []"
| "work_fragments i (w # rest) =
     (ascii ''cv_work_'' @ py_str i @ ascii ''_full'',
             [1060, 1080, 1088, 1076, 1072, 1074, 1089, 32, 1088, 1072, 1073, 1086, 1090, 1072,
             1083, 32, 1074, 32] @ w_company w @ [32, 1085, 1072, 32, 1087, 1086, 1079, 1080,
             1094, 1080, 1080, 32] @ w_position w @ [32, 1074, 32, 1087, 1077, 1088, 1080, 1086,
             1076, 32] @ w_period w @ [46, 32] @ [1050, 1083, 1102, 1095, 1077, 1074, 1099, 1077,
             32, 1087, 1088, 1086, 1077, 1082, 1090, 1099, 58, 32]
             @ py_join (ascii '', '') (w_highlights w) @ [46])
       #
     (ascii ''cv_work_'' @ py_str i @ ascii ''_brief'',
             w_company w @ [58, 32] @ w_position w @ [32, 40] @ w_period w @ [41])
       # highlight_fragments w i 0 (w_highlights w) @ work_fragments (i + 1) rest"

definition achievements :: "ustr list" where
  "achievements =
    [[1060, 1080, 1088, 1076, 1072, 1074, 1089, 32, 1088, 1072, 1079, 1074, 1077, 1088, 1085,
     1091, 1083] @ ascii '' 15+ production AI-'' @ [1073, 1086, 1090, 1086, 1074, 32, 1076,
     1083, 1103, 32, 1073, 1080, 1079, 1085, 1077, 1089, 1072],
     [1057, 1080, 1089, 1090, 1077, 1084, 1099, 32, 1060, 1080, 1088, 1076, 1072, 1074, 1089,
     1072, 32, 1086, 1073, 1088, 1072, 1073, 1072, 1090, 1099, 1074, 1072, 1102, 1090]
     @ ascii '' 500K+ '' @ [1079, 1072, 1087, 1088, 1086, 1089, 1086, 1074, 32, 1074, 32,
     1076, 1077, 1085, 1100, 32, 1089] @ ascii '' latency < 2 '' @ [1089, 1077, 1082, 1091,
     1085, 1076],
     [1060, 1080, 1088, 1076, 1072, 1074, 1089, 32, 1089, 1085, 1080, 1078, 1072, 1077, 1090,
     32, 1079, 1072, 1090, 1088, 1072, 1090, 1099, 32, 1085, 1072] @ ascii '' AI '' @ [1085,
     1072] @ ascii '' 80% '' @ [1095, 1077, 1088, 1077, 1079, 32, 1083, 1086, 1082, 1072,
     1083, 1100, 1085, 1099, 1081, 32, 1076, 1077, 1087, 1083, 1086, 1081, 32, 1084, 1086,
     1076, 1077, 1083, 1077, 1081],
     [1059, 32, 1060, 1080, 1088, 1076, 1072, 1074, 1089, 1072, 32, 1076, 1086, 1084, 1072,
     32, 1083, 1072, 1073, 1086, 1088, 1072, 1090, 1086, 1088, 1080, 1103, 32, 1089]
     @ ascii '' RTX 4090 '' @ [1080] @ ascii '' 128GB RAM '' @ [1076, 1083, 1103, 32, 1101,
     1082, 1089, 1087, 1077, 1088, 1080, 1084, 1077, 1085, 1090, 1086, 1074],
     [1060, 1080, 1088, 1076, 1072, 1074, 1089, 32, 1076, 1086, 1089, 1090, 1080, 1075, 32,
     1082, 1072, 1095, 1077, 1089, 1090, 1074, 1072] @ ascii '' MOS 4.2/5 '' @ [1074]
     @ ascii '' voice cloning '' @ [1090, 1077, 1093, 1085, 1086, 1083, 1086, 1075, 1080,
     1103, 1093],
     [1060, 1080, 1088, 1076, 1072, 1074, 1089, 32, 1089, 1086, 1079, 1076, 1072, 1083]
     @ ascii '' zero-shot voice cloning '' @ [1073, 1086, 1090, 1072, 32, 1085, 1072]
     @ ascii '' Chatterbox'',
     [1060, 1080, 1088, 1076, 1072, 1074, 1089, 32, 1089, 1087, 1077, 1094, 1080, 1072, 1083,
     1080, 1089, 1090, 32, 1087, 1086] @ ascii '' RAG '' @ [1089, 1080, 1089, 1090, 1077,
     1084, 1072, 1084, 32, 1089, 32, 1087, 1077, 1088, 1089, 1080, 1089, 1090, 1077, 1085,
     1090, 1085, 1086, 1081, 32, 1087, 1072, 1084, 1103, 1090, 1100, 1102]
     @ ascii '' Mem0/Zep'',
     [1060, 1080, 1088, 1076, 1072, 1074, 1089, 32, 1088, 1072, 1073, 1086, 1090, 1072, 1077,
     1090, 32, 1074] @ ascii '' Voximplant '' @ [1085, 1072, 1076] @ ascii '' AI-'' @ [1072,
     1089, 1089, 1080, 1089, 1090, 1077, 1085, 1090, 1086, 1084, 32, 1076, 1083, 1103]
     @ ascii '' 15K+ '' @ [1073, 1080, 1079, 1085, 1077, 1089, 45, 1082, 1083, 1080, 1077,
     1085, 1090, 1086, 1074]]"

fun achievement_fragments :: "int \<Rightarrow> ustr list \<Rightarrow> (ustr \<times> ustr) list" where
  "achievement_fragments i [] = []"
| "achievement_fragments i (achievement # rest) =
     (ascii ''cv_achievement_'' @ py_str i, achievement) # achievement_fragments (i + 1) rest"

definition cv_fragments :: "cv_data \<Rightarrow> (ustr \<times> ustr) list" where
  "cv_fragments d =
    [(ascii ''cv_personal_1'',
             [1060, 1080, 1088, 1076, 1072, 1074, 1089, 32, 1060, 1072, 1081, 1079, 1091, 1083,
             1083, 1072, 1077, 1074] @ ascii '' - '' @ pi_title (personal_info d) @ [46, 32, 1054,
             1087, 1099, 1090, 58, 32] @ pi_experience_years (personal_info d) @ [32, 1083, 1077,
             1090, 32, 1074] @ ascii '' AI/ML. '' @ [1051, 1086, 1082, 1072, 1094, 1080, 1103, 58,
             32] @ pi_location (personal_info d) @ [46, 32, 1057, 1087, 1077, 1094, 1080, 1072,
             1083, 1080, 1079, 1072, 1094, 1080, 1103, 58, 32] @ pi_expertise (personal_info d)
             @ [46]),
     (ascii ''cv_personal_2'',
             [1048, 1084, 1103, 58, 32, 1060, 1080, 1088, 1076, 1072, 1074, 1089, 32, 1060, 1072,
             1081, 1079, 1091, 1083, 1083, 1072, 1077, 1074, 46, 32, 1044, 1086, 1083, 1078, 1085,
             1086, 1089, 1090, 1100] @ ascii '': AI/ML Engineer '' @ [1080, 32, 1072, 1088, 1093,
             1080, 1090, 1077, 1082, 1090, 1086, 1088] @ ascii '' LLM-'' @ [1089, 1080, 1089,
             1090, 1077, 1084, 46, 32] @ [1069, 1082, 1089, 1087, 1077, 1088, 1090, 1080, 1079,
             1072, 32, 1074, 32] @ pi_expertise (personal_info d) @ [46, 32, 1041, 1072, 1079,
             1080, 1088, 1091, 1077, 1090, 1089, 1103, 32, 1074, 32, 1052, 1086, 1089, 1082, 1074,
             1077, 46]),
     (ascii ''cv_contacts_1'',
             [1050, 1086, 1085, 1090, 1072, 1082, 1090, 1099, 32, 1060, 1080, 1088, 1076, 1072,
             1074, 1089, 1072] @ ascii '': Email '' @ c_email (contacts d) @ ascii '', Telegram ''
             @ c_telegram (contacts d) @ [46, 32] @ c_availability (contacts d)),
     (ascii ''cv_contacts_2'',
             [1044, 1083, 1103, 32, 1089, 1074, 1103, 1079, 1080, 32, 1089, 32, 1060, 1080, 1088,
             1076, 1072, 1074, 1089, 1086, 1084, 32, 1060, 1072, 1081, 1079, 1091, 1083, 1083,
             1072, 1077, 1074, 1099, 1084, 58, 32, 1087, 1086, 1095, 1090, 1072, 32]
             @ c_email (contacts d) @ [32, 1080, 1083, 1080, 32, 1090, 1077, 1083, 1077, 1075,
             1088, 1072, 1084, 32] @ c_telegram (contacts d))]
     @ work_fragments 0 (work_experience d) @
    [(ascii ''cv_skills_models'',
             [1060, 1080, 1088, 1076, 1072, 1074, 1089, 32, 1088, 1072, 1073, 1086, 1090, 1072,
             1077, 1090, 32, 1089, 32, 1084, 1086, 1076, 1077, 1083, 1103, 1084, 1080, 58, 32]
             @ py_join (ascii '', '') (sk_models (skills d)) @ [46, 32] @ [1054, 1089, 1086, 1073,
             1077, 1085, 1085, 1086, 32, 1089, 1080, 1083, 1077, 1085, 32, 1074]
             @ ascii '' Llama, DeepSeek, Qwen '' @ [1076, 1083, 1103, 32, 1083, 1086, 1082, 1072,
             1083, 1100, 1085, 1086, 1075, 1086, 32, 1076, 1077, 1087, 1083, 1086, 1103, 46]),
     (ascii ''cv_skills_frameworks'',
             [1060, 1088, 1077, 1081, 1084, 1074, 1086, 1088, 1082, 1080, 32, 1082, 1086, 1090,
             1086, 1088, 1099, 1084, 1080, 32, 1074, 1083, 1072, 1076, 1077, 1077, 1090, 32, 1060,
             1080, 1088, 1076, 1072, 1074, 1089, 58, 32]
             @ py_join (ascii '', '') (sk_frameworks (skills d)) @ [46, 32] @ [1069, 1082, 1089,
             1087, 1077, 1088, 1090, 32, 1074] @ ascii '' LangChain '' @ [1080]
             @ ascii '' LangGraph '' @ [1076, 1083, 1103, 32, 1087, 1086, 1089, 1090, 1088, 1086,
             1077, 1085, 1080, 1103, 32, 1072, 1075, 1077, 1085, 1090, 1089, 1082, 1080, 1093, 32,
             1089, 1080, 1089, 1090, 1077, 1084, 46]),
     (ascii ''cv_skills_infra'',
             [1048, 1085, 1092, 1088, 1072, 1089, 1090, 1088, 1091, 1082, 1090, 1091, 1088, 1085,
             1099, 1081, 32, 1089, 1090, 1077, 1082, 32, 1060, 1080, 1088, 1076, 1072, 1074, 1089,
             1072, 58, 32] @ py_join (ascii '', '') (sk_infra (skills d)) @ [46, 32] @ [1059,
             1084, 1077, 1077, 1090, 32, 1088, 1072, 1079, 1074, 1086, 1088, 1072, 1095, 1080,
             1074, 1072, 1090, 1100] @ ascii '' ML '' @ [1089, 1080, 1089, 1090, 1077, 1084, 1099,
             32, 1074] @ ascii '' Kubernetes, '' @ [1086, 1087, 1090, 1080, 1084, 1080, 1079,
             1080, 1088, 1086, 1074, 1072, 1090, 1100, 32, 1095, 1077, 1088, 1077, 1079]
             @ ascii '' vLLM.''),
     (ascii ''cv_skills_all'',
             [1055, 1086, 1083, 1085, 1099, 1081, 32, 1089, 1087, 1080, 1089, 1086, 1082, 32,
             1090, 1077, 1093, 1085, 1086, 1083, 1086, 1075, 1080, 1081, 32, 1060, 1080, 1088,
             1076, 1072, 1074, 1089, 1072, 58, 32]
             @ py_join (ascii '', '') (sk_models (skills d) @ sk_frameworks (skills d) @ sk_infra (skills d))),
     (ascii ''cv_education'',
             [1054, 1073, 1088, 1072, 1079, 1086, 1074, 1072, 1085, 1080, 1077, 32, 1060, 1080,
             1088, 1076, 1072, 1074, 1089, 1072, 58, 32] @ ed_university (education d) @ [44, 32,
             1089, 1087, 1077, 1094, 1080, 1072, 1083, 1100, 1085, 1086, 1089, 1090, 1100, 32]
             @ ed_degree (education d) @ [44, 32] @ ed_period (education d))]
     @ achievement_fragments 0 achievements"

text \<open>The queries of the self-check after indexing.\<close>

definition test_queries :: "ustr list" where
  "test_queries =
    [[1086, 1087, 1099, 1090, 32, 1088, 1072, 1073, 1086, 1090, 1099],
     [1082, 1086, 1085, 1090, 1072, 1082, 1090, 1099],
     [1085, 1072, 1074, 1099, 1082, 1080],
     ascii ''voice AI'',
     ascii ''LLM'']"

text \<open>
  Modelled from the spec: the vector store's \<open>add\<close>, which belongs to the Chroma library
  and not to the repository. "add(fragments) upserts embeddings for each fragment": a
  fragment whose id is stored replaces that entry, any other is appended.
\<close>

fun col_upsert :: "collection \<Rightarrow> ustr \<times> ustr \<Rightarrow> collection" where
  "col_upsert [] (i, d) = [(i, d)]"
| "col_upsert ((j, e) # col) (i, d) =
     (if j = i then (j, d) # col else (j, e) # col_upsert col (i, d))"

definition col_add :: "collection \<Rightarrow> ustr list \<Rightarrow> ustr list \<Rightarrow> collection" where
  "col_add col docs ids = foldl col_upsert col (zip ids docs)"

text \<open>
  \<open>_index_cv_thoroughly\<close>. A collection that holds a fragment is left alone. Otherwise
  the fragments are added; \<open>add_outcome\<close> is the outcome of \<open>self.cv_col.add\<close>, and an
  exception of it or of one of the test queries (which otherwise only log) leaves the
  function, since nothing here catches it.
\<close>

definition index_cv_thoroughly ::
  "backend \<Rightarrow> (error + unit) \<Rightarrow> memory_manager \<Rightarrow> error + memory_manager" where
  "index_cv_thoroughly be add_outcome self =
     (if length (cv_col self) > 0 then Inr self
      else
        (let docs = map snd (cv_fragments CV_DATA); ids = map fst (cv_fragments CV_DATA)
         in if docs \<noteq> [] then
              (case add_outcome of
                 Inl e \<Rightarrow> Inl e
               | Inr u \<Rightarrow>
                   (let self' = self\<lparr>cv_col := col_add (cv_col self) docs ids\<rparr>
                    in if list_ex (\<lambda>q. isl (chroma_query be (cv_col self') q 2)) test_queries
                       then Inl BackendError else Inr self'))
            else Inr self))"

section \<open>Properties\<close>

subsection \<open>Slices and strings\<close>

lemma py_slice_from_neg:
  "py_slice_from xs (- int n) = (if n = 0 then xs else drop (length xs - n) xs)"
  by (auto simp: py_slice_from_def py_index_def max_def nat_diff_distrib')

lemma py_slice_to_nat: "py_slice_to xs (int n) = take n xs"
  by (simp add: py_slice_to_def py_index_def min_def)

subsection \<open>The dialogue buffer\<close>

lemma history_add:
  "history (add_conversation_memory out self u m r) v =
     (if v = u then
        (let hist = history self u @ [\<lparr>turn_q = m, turn_a = r\<rparr>]
         in drop (length hist - 15) hist)
      else history self v)"
proof -
  have "py_slice_from xs (- 15) = drop (length xs - 15) xs" for xs :: "turn list"
    using py_slice_from_neg [of xs 15] by simp
  then show ?thesis
    by (simp add: add_conversation_memory_def history_def Let_def)
qed

lemma length_drop_cap: "length (drop (length xs - n) xs) \<le> n"
  by simp

lemma drop_cap_append:
  "drop (length (drop (length a - n) a @ b) - n) (drop (length a - n) a @ b) =
     drop (length (a @ b) - n) (a @ b)"
proof (cases "length a \<le> n")
  case True
  then show ?thesis by simp
next
  case False
  then have "drop (length a - n) a @ b = drop (length a - n) (a @ b)"
    by simp
  moreover have "length (drop (length a - n) a @ b) - n = length b"
    using False by simp
  moreover have "length b + (length a - n) = length (a @ b) - n"
    using False by simp
  ultimately show ?thesis
    by (simp only: drop_drop)
qed

lemma history_add_bounded:
  assumes "\<forall>v. length (history self v) \<le> 15"
  shows "length (history (add_conversation_memory out self u m r) v) \<le> 15"
proof (cases "v = u")
  case True
  then show ?thesis
    by (simp only: history_add Let_def refl if_True length_drop_cap)
next
  case False
  then show ?thesis
    using assms by (simp add: history_add)
qed

lemma history_add_all_bounded:
  "\<forall>v. length (history self v) \<le> 15 \<Longrightarrow> length (history (add_all self calls) v) \<le> 15"
proof (induction calls arbitrary: self)
  case Nil
  then show ?case by simp
next
  case (Cons c calls)
  obtain out u m r where c: "c = (out, u, m, r)"
    by (cases c) auto
  have "\<forall>v. length (history (add_conversation_memory out self u m r) v) \<le> 15"
    using Cons.prems history_add_bounded by blast
  then show ?case
    using Cons.IH c by simp
qed

text \<open>Appending turns for one user keeps the last 15 of the whole history.\<close>

lemma history_add_all_same_user:
  assumes "length (history self u) \<le> 15"
  shows "history (add_all self (map (call_for u) xs)) u =
           (let hist = history self u @ map turn_of xs
            in drop (length hist - 15) hist)"
  using assms
proof (induction xs arbitrary: self)
  case Nil
  then show ?case by (simp add: Let_def)
next
  case (Cons x xs)
  obtain out m r where x: "x = (out, m, r)"
    by (cases x) auto
  let ?s = "add_conversation_memory out self u m r"
  let ?t = "\<lparr>turn_q = m, turn_a = r\<rparr>"
  let ?rest = "map turn_of xs"
  have h1: "history ?s u = drop (length (history self u @ [?t]) - 15) (history self u @ [?t])"
    by (simp add: history_add Let_def)
  have len: "length (history ?s u) \<le> 15"
    by (simp only: h1 length_drop_cap)
  have "history (add_all ?s (map (call_for u) xs)) u =
          drop (length (history ?s u @ ?rest) - 15) (history ?s u @ ?rest)"
    using Cons.IH [OF len] unfolding Let_def .
  also have "\<dots> = drop (length (history self u @ ?t # ?rest) - 15) (history self u @ ?t # ?rest)"
    by (simp only: h1 drop_cap_append append_assoc append_Cons append_Nil)
  finally have step: "history (add_all ?s (map (call_for u) xs)) u =
      drop (length (history self u @ ?t # ?rest) - 15) (history self u @ ?t # ?rest)" .
  have cx: "call_for u x = (out, u, m, r)" and tx: "turn_of x = ?t"
    by (simp_all add: x call_for_def turn_of_def)
  show ?case
    unfolding Let_def list.map cx tx add_all.simps by (rule step)
qed

text \<open>
  C5. Starting from the empty short-term memory of a new manager, after any sequence of
  calls of \<open>add_conversation_memory\<close> no user's buffer holds more than 15 turns; and
  appending 20 turns for one user with no history leaves exactly the last 15 of them
  (the 6th to the 20th), in their order.
\<close>

theorem dialog_fifo_cap:
  "(dialog self = Map.empty \<longrightarrow>
      (\<forall>calls v h. dialog (add_all self calls) v = Some h \<longrightarrow> length h \<le> 15)) \<and>
   (dialog self u = None \<and> length xs = 20 \<longrightarrow>
      dialog (add_all self (map (call_for u) xs)) u =
        Some (drop 5 (map turn_of xs)))"
proof (intro conjI impI allI)
  fix calls v h
  assume empty: "dialog self = Map.empty" and h: "dialog (add_all self calls) v = Some h"
  from empty have "\<forall>v. length (history self v) \<le> 15"
    by (simp add: history_def)
  then have "length (history (add_all self calls) v) \<le> 15"
    by (rule history_add_all_bounded)
  with h show "length h \<le> 15"
    by (simp add: history_def)
next
  assume a: "dialog self u = None \<and> length xs = 20"
  let ?calls = "map (call_for u) xs"
  let ?turns = "map turn_of xs"
  from a have h0: "history self u = []"
    by (simp add: history_def)
  then have hist: "history (add_all self ?calls) u = drop 5 ?turns"
    using history_add_all_same_user [of self u xs] a by (simp add: Let_def)
  from a obtain x xs' where xs: "xs = x # xs'"
    by (cases xs) auto
  have "dialog (add_all self ?calls) u \<noteq> None"
  proof -
    have "dialog (add_all s cs) u \<noteq> None" if "dialog s u \<noteq> None" for s cs
      using that
    proof (induction cs arbitrary: s)
      case Nil
      then show ?case by simp
    next
      case (Cons c cs)
      obtain out w m r where c: "c = (out, w, m, r)"
        by (cases c) auto
      have "dialog (add_conversation_memory out s w m r) u \<noteq> None"
        using Cons.prems by (simp add: add_conversation_memory_def Let_def)
      then show ?case
        using Cons.IH c by simp
    qed
    moreover obtain out m r where x: "x = (out, m, r)"
      by (cases x) auto
    moreover have "dialog (add_conversation_memory out self u m r) u \<noteq> None"
      by (simp add: add_conversation_memory_def Let_def)
    moreover have "call_for u x = (out, u, m, r)"
      using x by (simp add: call_for_def)
    ultimately show ?thesis
      by (simp add: xs)
  qed
  then obtain h where "dialog (add_all self ?calls) u = Some h"
    by auto
  with hist show "dialog (add_all self ?calls) u = Some (drop 5 ?turns)"
    by (simp add: history_def)
qed

theorem dialog_fifo_cap_witness:
  "dialog (add_all \<lparr>mem0_kind = NoMem0, mem0 = None, dialog = Map.empty, kb_col = [], cv_col = []\<rparr>
             (map (call_for (ascii ''u1''))
                (map (\<lambda>n. (Inr (), [48 + n], [97 + n])) [0..<20])))
      (ascii ''u1'') =
     Some (drop 5 (map turn_of (map (\<lambda>n. (Inr (), [48 + n], [97 + n])) [0..<20]))) \<and>
   length (drop 5 (map turn_of (map (\<lambda>n. (Inr (), [48 + n], [97 + n]) :: (error + unit) \<times> ustr \<times> ustr)
             [0..<20]))) \<le> 15"
proof -
  let ?self = "\<lparr>mem0_kind = NoMem0, mem0 = None, dialog = Map.empty, kb_col = [], cv_col = []\<rparr>"
  let ?xs = "map (\<lambda>n. (Inr (), [48 + n], [97 + n]) :: (error + unit) \<times> ustr \<times> ustr) [0..<20]"
  have e: "dialog ?self = Map.empty"
    by simp
  have n: "dialog ?self (ascii ''u1'') = None \<and> length ?xs = 20"
    by simp
  from dialog_fifo_cap [of ?self "ascii ''u1''" ?xs] e n
  have 1: "\<forall>calls v h. dialog (add_all ?self calls) v = Some h \<longrightarrow> length h \<le> 15"
    and 2: "dialog (add_all ?self (map (call_for (ascii ''u1'')) ?xs)) (ascii ''u1'') =
              Some (drop 5 (map turn_of ?xs))"
    by blast+
  from 1 2 show ?thesis
    by blast
qed

subsection \<open>Chunking\<close>

lemma py_slice_nat: "py_slice xs (int i) (int i + int n) = take n (drop i xs)"
proof -
  have "py_index (length xs) (int i) = min (length xs) i"
    by (simp add: py_index_def)
  moreover have "py_index (length xs) (int i + int n) = min (length xs) (i + n)"
    by (simp add: py_index_def nat_add_distrib)
  ultimately show ?thesis
    by (cases "i \<le> length xs") (simp_all add: py_slice_def min_def)
qed

lemma length_py_slice: "length (py_slice xs i j) \<le> length xs"
  by (simp add: py_slice_def Let_def)

lemma chunk_while_docs:
  "fst (chunk_while t pfx chunk_chars overlap start acc) =
     fst acc @ filter (\<lambda>c. 50 < length c) (windows t chunk_chars overlap start)"
proof (induction t pfx chunk_chars overlap start acc rule: chunk_while.induct)
  case (1 t pfx chunk_chars overlap start docs ids idx)
  show ?case
  proof (cases "start < length t")
    case True
    then show ?thesis
      using "1.IH" [OF True refl]
      by (subst chunk_while.simps, subst windows.simps) (simp add: Let_def)
  next
    case False
    then show ?thesis
      by (subst chunk_while.simps, subst windows.simps) simp
  qed
qed

lemma windows_empty: "windows [] chunk_chars overlap 0 = []"
  by (subst windows.simps) simp

lemma chunk_for_docs:
  "fst (chunk_for pfx chunk_chars overlap texts acc) =
     fst acc @ concat (map (\<lambda>raw. filter (\<lambda>c. 50 < length c)
                                   (windows (normalize_ws raw) chunk_chars overlap 0)) texts)"
  by (induction texts arbitrary: acc) (simp_all add: Let_def chunk_while_docs windows_empty)

lemma chunk_texts_docs:
  "fst (chunk_texts texts pfx chunk_chars overlap) =
     concat (map (\<lambda>raw. filter (\<lambda>c. 50 < length c)
                          (windows (normalize_ws raw) chunk_chars overlap 0)) texts)"
proof -
  have "fst (chunk_texts texts pfx chunk_chars overlap) =
          fst (chunk_for pfx chunk_chars overlap texts ([], [], 1))"
    by (simp add: chunk_texts_def split: prod.splits)
  then show ?thesis
    by (simp add: chunk_for_docs)
qed

lemma windows_length: "w \<in> set (windows t chunk_chars overlap start) \<Longrightarrow> length w \<le> length t"
proof (induction t chunk_chars overlap start rule: windows.induct)
  case (1 t chunk_chars overlap start)
  show ?case
  proof (cases "start < length t")
    case True
    with "1.prems" have "w = py_slice t (int start) (int start + chunk_chars) \<or>
        w \<in> set (windows t chunk_chars overlap (start + chunk_step chunk_chars overlap))"
      by (subst (asm) windows.simps) simp
    then show ?thesis
      using "1.IH" [OF True] length_py_slice by auto
  next
    case False
    with "1.prems" show ?thesis
      by (subst (asm) windows.simps) simp
  qed
qed

lemma chunk_step_default: "chunk_step 800 200 = 600"
  by (simp add: chunk_step_def)

lemma windows_default:
  "windows t 800 200 start =
     (if start < length t then take 800 (drop start t) # windows t 800 200 (start + 600) else [])"
  using py_slice_nat [of t start 800]
  by (subst windows.simps) (simp add: chunk_step_default)

lemma kept_windows_hd:
  assumes "kept (windows t 800 200 start) \<noteq> []"
  shows "hd (kept (windows t 800 200 start)) = take 800 (drop start t) \<and> start + 50 < length t"
proof (cases "start < length t")
  case True
  show ?thesis
  proof (cases "50 < length (take 800 (drop start t))")
    case long: True
    with True show ?thesis
      by (subst windows_default) auto
  next
    case False
    with True have "length t \<le> start + 600"
      by auto
    then have "windows t 800 200 (start + 600) = []"
      by (subst windows_default) simp
    with assms False True show ?thesis
      by (subst (asm) windows_default) simp
  qed
next
  case False
  with assms show ?thesis
    by (subst (asm) windows_default) simp
qed

lemma overlap_ok_windows:
  assumes "start + 600 < length t"
  shows "overlap_ok (take 800 (drop start t)) (take 800 (drop (start + 600) t))"
proof -
  have d: "drop 600 (take 800 (drop start t)) = take 200 (drop (start + 600) t)"
    by (simp add: drop_take add.commute [of 600 start])
  show ?thesis
    unfolding overlap_ok_def
  proof (intro conjI impI)
    assume "200 \<le> length (take 800 (drop (start + 600) t))"
    then have "start + 800 \<le> length t"
      by simp
    then have "length (take 800 (drop start t)) - 200 = 600"
      by simp
    then show "drop (length (take 800 (drop start t)) - 200) (take 800 (drop start t)) =
        take 200 (take 800 (drop (start + 600) t))"
      using d by simp
  next
    assume "length (take 800 (drop (start + 600) t)) < 200"
    then have "length (drop (start + 600) t) < 200"
      by simp
    then show "take 800 (drop (start + 600) t) = drop 600 (take 800 (drop start t))"
      using d by simp
  qed
qed

lemma kept_windows_successively:
  "successively overlap_ok (kept (windows t 800 200 start))"
proof (induction "length t - start" arbitrary: start rule: less_induct)
  case less
  show ?case
  proof (cases "start < length t")
    case True
    let ?rest = "kept (windows t 800 200 (start + 600))"
    have IH: "successively overlap_ok ?rest"
      using less [of "start + 600"] True by simp
    have "successively overlap_ok (take 800 (drop start t) # ?rest)"
    proof (cases "?rest = []")
      case True
      then show ?thesis by simp
    next
      case False
      from kept_windows_hd [OF False]
      have "hd ?rest = take 800 (drop (start + 600) t)" and "start + 600 < length t"
        by simp_all
      then show ?thesis
        using IH False overlap_ok_windows [of start t] by (simp add: successively_Cons)
    qed
    with IH True show ?thesis
      by (subst windows_default) simp
  next
    case False
    then show ?thesis
      by (subst windows_default) simp
  qed
qed

lemma successively_nth:
  "successively P xs \<Longrightarrow> Suc i < length xs \<Longrightarrow> P (xs ! i) (xs ! Suc i)"
proof (induction xs arbitrary: i)
  case Nil
  then show ?case by simp
next
  case (Cons x xs)
  then show ?case
    by (cases i) (auto simp: successively_Cons hd_conv_nth)
qed

lemma split_acc_no_space:
  "\<forall>c \<in> set s. \<not> isspace c \<Longrightarrow> split_acc w s = (if w @ s = [] then [] else [w @ s])"
  by (induction s arbitrary: w) auto

lemma normalize_ws_no_space: "\<forall>c \<in> set s. \<not> isspace c \<Longrightarrow> normalize_ws s = s"
  by (simp add: normalize_ws_def py_split_def split_acc_no_space)

lemma normalize_ws_replicate: "normalize_ws (replicate n 97) = replicate n 97"
  by (rule normalize_ws_no_space) (simp add: isspace_def)

lemma windows_700:
  "windows (replicate 700 97) 800 200 0 = [replicate 700 97, replicate 100 97]"
proof -
  have w2: "windows (replicate 700 97) 800 200 1200 = []"
    by (subst windows_default) simp
  have w1: "windows (replicate 700 97) 800 200 600 = [replicate 100 97]"
    by (subst windows_default) (simp add: w2)
  show ?thesis
    by (subst windows_default) (simp add: w1)
qed

lemma windows_50: "windows (replicate 50 97) 800 200 0 = [replicate 50 97]"
proof -
  have w1: "windows (replicate 50 97) 800 200 600 = []"
    by (subst windows_default) simp
  show ?thesis
    by (subst windows_default) (simp add: w1)
qed

lemma py_slice_from_nat: "py_slice_from xs (int n) = drop n xs"
  by (simp add: py_slice_from_def py_index_def min_def)

lemma windows_800:
  "windows (replicate 800 97) 800 200 0 = [replicate 800 97, replicate 200 97]"
proof -
  have w2: "windows (replicate 800 97) 800 200 1200 = []"
    by (subst windows_default) simp
  have w1: "windows (replicate 800 97) 800 200 600 = [replicate 200 97]"
    by (subst windows_default) (simp add: w2)
  show ?thesis
    by (subst windows_default) (simp add: w1)
qed

lemma windows_51: "windows (replicate 51 97) 800 200 0 = [replicate 51 97]"
proof -
  have w1: "windows (replicate 51 97) 800 200 600 = []"
    by (subst windows_default) simp
  show ?thesis
    by (subst windows_default) (simp add: w1)
qed

lemma ingest_chunks_kept:
  "ingest_chunks raw pfx = kept (windows (normalize_ws raw) 800 200 0)"
  by (simp add: ingest_chunks_def chunk_texts_docs)

lemma ingest_chunks_700:
  "ingest_chunks (replicate 700 97) pfx = [replicate 700 97, replicate 100 97]"
  by (simp add: ingest_chunks_kept normalize_ws_replicate windows_700)

lemma ingest_chunks_800:
  "ingest_chunks (replicate 800 97) pfx = [replicate 800 97, replicate 200 97]"
  by (simp add: ingest_chunks_kept normalize_ws_replicate windows_800)

text \<open>
  The overlap guarantee as the specification states it fails on a text of 700
  characters: its chunks are the whole text and its last 100 characters, so the last
  200 characters of the first chunk are not the first 200 of the second.
\<close>

theorem chunk_overlap_counterexample:
  "Suc 0 < length (ingest_chunks (replicate 700 97) (ascii ''CV_PDF'')) \<and>
   py_slice_from (ingest_chunks (replicate 700 97) (ascii ''CV_PDF'') ! 0) (- 200)
     \<noteq> py_slice_to (ingest_chunks (replicate 700 97) (ascii ''CV_PDF'') ! Suc 0) 200"
proof -
  have "py_slice_from (replicate 700 (97::nat)) (- 200) = replicate 200 97"
    using py_slice_from_neg [of "replicate 700 (97::nat)" 200] by simp
  moreover have "py_slice_to (replicate 100 (97::nat)) 200 = replicate 100 97"
    using py_slice_to_nat [of "replicate 100 (97::nat)" 200] by simp
  moreover have "replicate 200 (97::nat) \<noteq> replicate 100 97"
    by (simp add: replicate_eq_replicate)
  ultimately show ?thesis
    by (simp add: ingest_chunks_700)
qed

text \<open>
  C7 (amended). Chunking one text with \<open>chunk_chars = 800\<close> and \<open>overlap = 200\<close>:
  for two consecutive chunks, if the later chunk has at least 200 characters, the last 200
  characters of the earlier chunk are the first 200 of the later one; a later chunk of
  fewer than 200 characters is exactly what follows the first 600 characters of the
  earlier chunk.
\<close>

theorem chunk_overlap:
  assumes "Suc i < length (ingest_chunks raw pfx)"
  shows "(200 \<le> length (ingest_chunks raw pfx ! Suc i) \<longrightarrow>
            py_slice_from (ingest_chunks raw pfx ! i) (- 200) =
              py_slice_to (ingest_chunks raw pfx ! Suc i) 200) \<and>
         (length (ingest_chunks raw pfx ! Suc i) < 200 \<longrightarrow>
            ingest_chunks raw pfx ! Suc i = py_slice_from (ingest_chunks raw pfx ! i) 600)"
proof -
  let ?c = "ingest_chunks raw pfx ! i" and ?d = "ingest_chunks raw pfx ! Suc i"
  have "successively overlap_ok (ingest_chunks raw pfx)"
    by (simp only: ingest_chunks_kept kept_windows_successively)
  then have ok: "overlap_ok ?c ?d"
    using assms by (rule successively_nth)
  have last: "py_slice_from ?c (- 200) = drop (length ?c - 200) ?c"
    using py_slice_from_neg [of ?c 200] by simp
  have first: "py_slice_to ?d 200 = take 200 ?d"
    using py_slice_to_nat [of ?d 200] by simp
  have rest: "py_slice_from ?c 600 = drop 600 ?c"
    using py_slice_from_nat [of ?c 600] by simp
  from ok show ?thesis
    unfolding overlap_ok_def last first rest .
qed

theorem chunk_overlap_witness:
  "Suc 0 < length (ingest_chunks (replicate 800 97) (ascii ''CV_PDF'')) \<and>
   200 \<le> length (ingest_chunks (replicate 800 97) (ascii ''CV_PDF'') ! Suc 0) \<and>
   py_slice_from (ingest_chunks (replicate 800 97) (ascii ''CV_PDF'') ! 0) (- 200) =
     py_slice_to (ingest_chunks (replicate 800 97) (ascii ''CV_PDF'') ! Suc 0) 200 \<and>
   Suc 0 < length (ingest_chunks (replicate 700 97) (ascii ''CV_PDF'')) \<and>
   length (ingest_chunks (replicate 700 97) (ascii ''CV_PDF'') ! Suc 0) < 200 \<and>
   ingest_chunks (replicate 700 97) (ascii ''CV_PDF'') ! Suc 0 =
     py_slice_from (ingest_chunks (replicate 700 97) (ascii ''CV_PDF'') ! 0) 600"
proof -
  have a: "Suc 0 < length (ingest_chunks (replicate 800 97) (ascii ''CV_PDF''))"
    and b: "200 \<le> length (ingest_chunks (replicate 800 97) (ascii ''CV_PDF'') ! Suc 0)"
    by (simp_all add: ingest_chunks_800)
  have c: "Suc 0 < length (ingest_chunks (replicate 700 97) (ascii ''CV_PDF''))"
    and d: "length (ingest_chunks (replicate 700 97) (ascii ''CV_PDF'') ! Suc 0) < 200"
    by (simp_all add: ingest_chunks_700)
  from chunk_overlap [OF a] b chunk_overlap [OF c] d a c show ?thesis
    by simp
qed

text \<open>
  A window of exactly 50 characters is "at least 50 characters long" and is discarded:
  the test of the loop is \<open>len(chunk) > 50\<close>.
\<close>

theorem chunk_min_length_counterexample:
  "replicate 50 97 \<in> set (windows (normalize_ws (replicate 50 97)) 800 200 0) \<and>
   50 \<le> length (replicate 50 (97::nat)) \<and>
   replicate 50 97 \<notin> set (fst (chunk_texts [replicate 50 97] (ascii ''CV_PDF'') 800 200))"
  by (simp add: chunk_texts_docs normalize_ws_replicate windows_50)

text \<open>
  C8 (amended). The documents are the windows of each normalised text, in order, that
  are longer than 50 characters: a window of one text appears in the output if and only
  if it has more than 50 characters, and when every normalised text has at most 50
  characters the output is empty.
\<close>

theorem chunk_min_length:
  "fst (chunk_texts texts pfx chunk_chars overlap) =
     concat (map (\<lambda>raw. kept (windows (normalize_ws raw) chunk_chars overlap 0)) texts) \<and>
   (w \<in> set (windows (normalize_ws raw) chunk_chars overlap 0) \<longrightarrow>
      (w \<in> set (fst (chunk_texts [raw] pfx chunk_chars overlap)) \<longleftrightarrow> 50 < length w)) \<and>
   ((\<forall>raw \<in> set texts. length (normalize_ws raw) \<le> 50) \<longrightarrow>
      fst (chunk_texts texts pfx chunk_chars overlap) = [])"
proof (intro conjI impI)
  show "fst (chunk_texts texts pfx chunk_chars overlap) =
     concat (map (\<lambda>raw. kept (windows (normalize_ws raw) chunk_chars overlap 0)) texts)"
    by (rule chunk_texts_docs)
next
  assume "w \<in> set (windows (normalize_ws raw) chunk_chars overlap 0)"
  then show "w \<in> set (fst (chunk_texts [raw] pfx chunk_chars overlap)) \<longleftrightarrow> 50 < length w"
    by (simp add: chunk_texts_docs)
next
  assume short: "\<forall>raw \<in> set texts. length (normalize_ws raw) \<le> 50"
  have "kept (windows (normalize_ws raw) chunk_chars overlap 0) = []" if "raw \<in> set texts" for raw
  proof -
    have "length c \<le> 50" if "c \<in> set (windows (normalize_ws raw) chunk_chars overlap 0)" for c
      using windows_length [OF that] short \<open>raw \<in> set texts\<close> by fastforce
    then have "\<forall>c \<in> set (windows (normalize_ws raw) chunk_chars overlap 0). \<not> 50 < length c"
      by (auto simp: not_less)
    then show ?thesis
      by (simp add: filter_empty_conv)
  qed
  then show "fst (chunk_texts texts pfx chunk_chars overlap) = []"
    by (simp add: chunk_texts_docs)
qed

theorem chunk_min_length_witness:
  "replicate 51 97 \<in> set (windows (normalize_ws (replicate 51 97)) 800 200 0) \<and>
   50 < length (replicate 51 (97::nat)) \<and>
   replicate 51 97 \<in> set (fst (chunk_texts [replicate 51 97] (ascii ''CV_PDF'') 800 200)) \<and>
   length (normalize_ws (replicate 50 97)) \<le> 50 \<and>
   fst (chunk_texts [replicate 50 97] (ascii ''CV_PDF'') 800 200) = []"
proof -
  have a: "replicate 51 97 \<in> set (windows (normalize_ws (replicate 51 97)) 800 200 0)"
    by (simp add: normalize_ws_replicate windows_51)
  have b: "\<forall>raw \<in> set [replicate 50 97]. length (normalize_ws raw) \<le> 50"
    by (simp add: normalize_ws_replicate)
  have c: "50 < length (replicate 51 (97::nat))"
    by simp
  from chunk_min_length [of "[replicate 50 97]" "ascii ''CV_PDF''" 800 200 "replicate 51 97"
      "replicate 51 97"]
  have 1: "replicate 51 97 \<in> set (windows (normalize_ws (replicate 51 97)) 800 200 0) \<longrightarrow>
      (replicate 51 97 \<in> set (fst (chunk_texts [replicate 51 97] (ascii ''CV_PDF'') 800 200))
         \<longleftrightarrow> 50 < length (replicate 51 (97::nat)))"
    and 2: "(\<forall>raw \<in> set [replicate 50 97]. length (normalize_ws raw) \<le> 50) \<longrightarrow>
      fst (chunk_texts [replicate 50 97] (ascii ''CV_PDF'') 800 200) = []"
    by blast+
  from 1 a c have d: "replicate 51 97 \<in> set (fst (chunk_texts [replicate 51 97] (ascii ''CV_PDF'') 800 200))"
    by blast
  from 2 b have e: "fst (chunk_texts [replicate 50 97] (ascii ''CV_PDF'') 800 200) = []"
    by blast
  from b have f: "length (normalize_ws (replicate 50 97)) \<le> 50"
    by simp
  from a c d e f show ?thesis
    by blast
qed

subsection \<open>Context assembly\<close>

lemma py_join_Cons: "py_join sep (x # xs) = x @ concat (map (\<lambda>y. sep @ y) xs)"
  by (induction xs arbitrary: x) auto

lemma header_shapes:
  "\<exists>t. cv_header = 61 # t" "\<exists>t. kb_header = 10 # t" "\<exists>t. ep_header = 10 # t"
  "\<exists>t. tail_header = 10 # t" "\<exists>t. no_context = 1050 # t" "bullet = 8226 # [32]"
  by (simp_all add: cv_header_def kb_header_def ep_header_def tail_header_def no_context_def
      bullet_def ascii_def)

lemma headers_distinct:
  "kb_header \<noteq> ep_header" "kb_header \<noteq> tail_header" "ep_header \<noteq> tail_header"
  by (simp_all add: kb_header_def ep_header_def tail_header_def ascii_def)

lemma context_parts_Nil:
  "context_parts cv kb ep tail = [] \<longleftrightarrow> cv = [] \<and> kb = [] \<and> ep = [] \<and> tail = []"
  by (simp add: context_parts_def)

lemma context_parts_hd:
  assumes "context_parts cv kb ep tail \<noteq> []"
  shows "hd (context_parts cv kb ep tail) \<in> {cv_header, kb_header, ep_header, tail_header}"
  using assms by (auto simp: context_parts_def)

lemma context_text_first:
  assumes "parts \<noteq> []" and "hd parts \<in> {cv_header, kb_header, ep_header, tail_header}"
  shows "\<exists>c t. context_text parts = c # t \<and> (c = 61 \<or> c = 10)"
proof -
  obtain h rest where p: "parts = h # rest"
    using assms(1) by (cases parts) auto
  with assms(2) have "\<exists>t. h = 61 # t \<or> h = 10 # t"
    using header_shapes(1-4) by auto
  then show ?thesis
    by (auto simp: context_text_def p py_join_Cons)
qed

lemma context_text_sentinel:
  "context_text (context_parts cv kb ep tail) = no_context \<longleftrightarrow>
     cv = [] \<and> kb = [] \<and> ep = [] \<and> tail = []"
proof (cases "context_parts cv kb ep tail = []")
  case True
  then show ?thesis
    by (simp add: context_text_def context_parts_Nil)
next
  case False
  from context_text_first [OF False context_parts_hd [OF False]]
  obtain c t where ct: "context_text (context_parts cv kb ep tail) = c # t" and c: "c = 61 \<or> c = 10"
    by blast
  obtain t' where nc: "no_context = 1050 # t'"
    using header_shapes(5) by blast
  have "context_text (context_parts cv kb ep tail) \<noteq> no_context"
  proof
    assume "context_text (context_parts cv kb ep tail) = no_context"
    then have "c # t = 1050 # t'"
      using ct nc by simp
    then have "c = 1050"
      by simp
    with c show False
      by simp
  qed
  with False show ?thesis
    by (simp add: context_parts_Nil)
qed

lemma context_text_nonempty: "context_text (context_parts cv kb ep tail) \<noteq> []"
proof (cases "context_parts cv kb ep tail = []")
  case True
  then show ?thesis
    using header_shapes(5) by (auto simp: context_text_def)
next
  case False
  from context_text_first [OF False context_parts_hd [OF False]] show ?thesis
    by auto
qed

text \<open>
  C1. For every query and user id, \<open>get_relevant_context\<close> returns the sentinel
  exactly when the CV search, the KB search, the episodic search and the dialogue tail are
  all empty, and it never returns the empty string.
\<close>

theorem context_sentinel:
  "(get_relevant_context be self query user_id k_ep k_kb k_cv = no_context \<longleftrightarrow>
      cv_search be self query k_cv = [] \<and> kb_search be self query k_kb = [] \<and>
      mem0_search be self query user_id k_ep = [] \<and> dialog_tail (history self user_id) = []) \<and>
   get_relevant_context be self query user_id k_ep k_kb k_cv \<noteq> []"
  by (simp add: get_relevant_context_def assembled_parts_def Let_def context_text_sentinel
      context_text_nonempty)

lemma context_text_order:
  assumes "cv \<noteq> []" "kb \<noteq> []" "ep \<noteq> []" "tail \<noteq> []"
  shows "\<exists>a b c d. context_text (context_parts cv kb ep tail) =
           cv_header @ a @ kb_header @ b @ ep_header @ c @ tail_header @ d"
proof -
  let ?j = "\<lambda>xs. concat (map (\<lambda>y. [10] @ y) xs)"
  let ?A = "map (\<lambda>x. bullet @ strip (r_text x)) cv"
  let ?B = "map (\<lambda>x. bullet @ py_slice_to (strip (r_text x)) 300) (py_slice_to kb 5)"
  let ?C = "map (\<lambda>x. bullet @ strip x) ep"
  have "context_text (context_parts cv kb ep tail) =
      cv_header @ (?j ?A @ [10]) @ kb_header @ (?j ?B @ [10]) @ ep_header @ (?j ?C @ [10])
        @ tail_header @ ?j tail"
    using assms by (simp add: context_text_def context_parts_def py_join_Cons)
  then show ?thesis
    by blast
qed

lemma history_new_manager: "history new_manager u = []"
  by (simp add: history_def new_manager_def)

lemma searches_new_manager:
  "cv_search be new_manager q k = []" "kb_search be new_manager q k = []"
  "mem0_search be new_manager q u k = []"
  by (simp_all add: cv_search_def kb_search_def mem0_search_def new_manager_def)

lemma py_slice_from_m3: "py_slice_from xs (- 3) = drop (length xs - 3) xs"
  using py_slice_from_neg [of xs 3] by simp

lemma dialog_tail_Nil: "dialog_tail hist = [] \<longleftrightarrow> hist = []"
proof (cases hist)
  case Nil
  then show ?thesis
    by (simp add: dialog_tail_def py_slice_from_m3)
next
  case (Cons x xs)
  then have "\<not> length hist \<le> length hist - 3"
    by simp
  with Cons show ?thesis
    by (simp add: dialog_tail_def py_slice_from_m3)
qed

theorem context_sentinel_witness:
  "get_relevant_context (fixed_backend [] [] []) new_manager (ascii ''zzz'') (ascii ''u1'') 5 8 6
     = no_context \<and>
   get_relevant_context (fixed_backend [] [] []) demo_manager (ascii ''zzz'') (ascii ''u1'') 5 8 6
     \<noteq> no_context \<and>
   get_relevant_context (fixed_backend [] [] []) demo_manager (ascii ''zzz'') (ascii ''u1'') 5 8 6
     \<noteq> []"
proof -
  have "dialog_tail (history new_manager (ascii ''u1'')) = []"
    by (simp add: history_new_manager dialog_tail_Nil)
  then have 1: "get_relevant_context (fixed_backend [] [] []) new_manager (ascii ''zzz'')
      (ascii ''u1'') 5 8 6 = no_context"
    using context_sentinel [of "fixed_backend [] [] []" new_manager "ascii ''zzz''" "ascii ''u1''" 5 8 6]
    by (simp add: searches_new_manager)
  have "history demo_manager (ascii ''u1'') \<noteq> []"
    by (simp add: history_def demo_manager_def)
  then have "dialog_tail (history demo_manager (ascii ''u1'')) \<noteq> []"
    by (simp add: dialog_tail_Nil)
  then have 2: "get_relevant_context (fixed_backend [] [] []) demo_manager (ascii ''zzz'')
      (ascii ''u1'') 5 8 6 \<noteq> no_context"
    using context_sentinel [of "fixed_backend [] [] []" demo_manager "ascii ''zzz''" "ascii ''u1''" 5 8 6]
    by blast
  from 1 2 context_sentinel [of "fixed_backend [] [] []" demo_manager "ascii ''zzz''" "ascii ''u1''" 5 8 6]
  show ?thesis
    by blast
qed

lemma dialog_tail_shape: "t \<in> set (dialog_tail hist) \<Longrightarrow> \<exists>r. t = 85 # r"
  by (auto simp: dialog_tail_def ascii_def)

lemma py_slice_to_5: "py_slice_to xs 5 = take 5 xs"
  using py_slice_to_nat [of xs 5] by simp

lemma py_slice_to_300: "py_slice_to xs 300 = take 300 xs"
  using py_slice_to_nat [of xs 300] by simp

lemma context_parts_headers:
  assumes "\<forall>t \<in> set tail. \<exists>r. t = 85 # r"
  shows "cv_header \<in> set (context_parts cv kb ep tail) \<longleftrightarrow> cv \<noteq> []"
    and "kb_header \<in> set (context_parts cv kb ep tail) \<longleftrightarrow> kb \<noteq> []"
    and "ep_header \<in> set (context_parts cv kb ep tail) \<longleftrightarrow> ep \<noteq> []"
    and "tail_header \<in> set (context_parts cv kb ep tail) \<longleftrightarrow> tail \<noteq> []"
proof -
  obtain c k e t where h: "cv_header = 61 # c" "kb_header = 10 # k" "ep_header = 10 # e"
      "tail_header = 10 # t"
    using header_shapes(1-4) by blast
  have b: "bullet @ s = 8226 # 32 # s" for s
    by (simp add: bullet_def)
  have t: "x \<notin> set tail" if "\<exists>r. x = 61 # r \<or> x = 10 # r" for x
    using assms that by auto
  have tl: "cv_header \<notin> set tail" "kb_header \<notin> set tail" "ep_header \<notin> set tail"
    "tail_header \<notin> set tail"
    using t h by auto
  show "cv_header \<in> set (context_parts cv kb ep tail) \<longleftrightarrow> cv \<noteq> []"
    using tl by (auto simp: context_parts_def b h)
  show "kb_header \<in> set (context_parts cv kb ep tail) \<longleftrightarrow> kb \<noteq> []"
    using tl headers_distinct by (auto simp: context_parts_def b h)
  show "ep_header \<in> set (context_parts cv kb ep tail) \<longleftrightarrow> ep \<noteq> []"
    using tl headers_distinct by (auto simp: context_parts_def b h)
  show "tail_header \<in> set (context_parts cv kb ep tail) \<longleftrightarrow> tail \<noteq> []"
    using tl headers_distinct by (auto simp: context_parts_def b h)
qed

lemma length_context_parts:
  "length (context_parts cv kb ep tail) =
     (if cv = [] then 0 else 1 + length cv) + (if kb = [] then 0 else 1 + min 5 (length kb)) +
     (if ep = [] then 0 else 1 + length ep) + (if tail = [] then 0 else 1 + length tail)"
  by (simp add: context_parts_def py_slice_to_5 min.commute)


lemma assembled_parts_headers:
  "cv_header \<in> set (assembled_parts be self query user_id k_ep k_kb k_cv) \<longleftrightarrow>
     cv_search be self query k_cv \<noteq> []"
  "kb_header \<in> set (assembled_parts be self query user_id k_ep k_kb k_cv) \<longleftrightarrow>
     kb_search be self query k_kb \<noteq> []"
  "ep_header \<in> set (assembled_parts be self query user_id k_ep k_kb k_cv) \<longleftrightarrow>
     mem0_search be self query user_id k_ep \<noteq> []"
  "tail_header \<in> set (assembled_parts be self query user_id k_ep k_kb k_cv) \<longleftrightarrow>
     dialog_tail (history self user_id) \<noteq> []"
proof -
  have t: "\<forall>t \<in> set (dialog_tail (history self user_id)). \<exists>r. t = 85 # r"
    using dialog_tail_shape by blast
  show "cv_header \<in> set (assembled_parts be self query user_id k_ep k_kb k_cv) \<longleftrightarrow>
     cv_search be self query k_cv \<noteq> []"
    unfolding assembled_parts_def Let_def by (rule context_parts_headers(1) [OF t])
  show "kb_header \<in> set (assembled_parts be self query user_id k_ep k_kb k_cv) \<longleftrightarrow>
     kb_search be self query k_kb \<noteq> []"
    unfolding assembled_parts_def Let_def by (rule context_parts_headers(2) [OF t])
  show "ep_header \<in> set (assembled_parts be self query user_id k_ep k_kb k_cv) \<longleftrightarrow>
     mem0_search be self query user_id k_ep \<noteq> []"
    unfolding assembled_parts_def Let_def by (rule context_parts_headers(3) [OF t])
  show "tail_header \<in> set (assembled_parts be self query user_id k_ep k_kb k_cv) \<longleftrightarrow>
     dialog_tail (history self user_id) \<noteq> []"
    unfolding assembled_parts_def Let_def by (rule context_parts_headers(4) [OF t])
qed

lemma context_text_render:
  "context_text (context_parts cv kb ep tail) =
     render_sections
       [(cv_header, map (\<lambda>x. bullet @ strip (r_text x)) cv),
        (kb_header, map (\<lambda>x. bullet @ take 300 (strip (r_text x))) (take 5 kb)),
        (ep_header, map (\<lambda>x. bullet @ strip x) ep),
        (tail_header, tail)]"
  by (simp add: render_sections_def context_text_def context_parts_def py_slice_to_5
      py_slice_to_300 Let_def take_eq_Nil)

text \<open>
  C2. When the four sources of a call are all non-empty, the returned context has the CV
  header, then the KB header, then the episodic header, then the recent-messages header,
  in this order. For any call, the returned text is the rendering of the four sections in
  this order with every section of an empty source dropped, header and lines: it is the
  text of the sections that have a line, and of nothing else. Of the parts joined into
  the text, the header of a section is one if and only if its source is non-empty, and
  their number is the sum, over the non-empty sources, of one header and the rendered
  items (at most five for the KB).
\<close>

theorem context_section_order:
  "(cv_search be self query k_cv \<noteq> [] \<and> kb_search be self query k_kb \<noteq> [] \<and>
    mem0_search be self query user_id k_ep \<noteq> [] \<and> dialog_tail (history self user_id) \<noteq> [] \<longrightarrow>
      (\<exists>a b c d. get_relevant_context be self query user_id k_ep k_kb k_cv =
         cv_header @ a @ kb_header @ b @ ep_header @ c @ tail_header @ d)) \<and>
   get_relevant_context be self query user_id k_ep k_kb k_cv =
     render_sections
       [(cv_header, map (\<lambda>x. bullet @ strip (r_text x)) (cv_search be self query k_cv)),
        (kb_header, map (\<lambda>x. bullet @ take 300 (strip (r_text x)))
                      (take 5 (kb_search be self query k_kb))),
        (ep_header, map (\<lambda>x. bullet @ strip x) (mem0_search be self query user_id k_ep)),
        (tail_header, dialog_tail (history self user_id))] \<and>
   (cv_header \<in> set (assembled_parts be self query user_id k_ep k_kb k_cv) \<longleftrightarrow>
      cv_search be self query k_cv \<noteq> []) \<and>
   (kb_header \<in> set (assembled_parts be self query user_id k_ep k_kb k_cv) \<longleftrightarrow>
      kb_search be self query k_kb \<noteq> []) \<and>
   (ep_header \<in> set (assembled_parts be self query user_id k_ep k_kb k_cv) \<longleftrightarrow>
      mem0_search be self query user_id k_ep \<noteq> []) \<and>
   (tail_header \<in> set (assembled_parts be self query user_id k_ep k_kb k_cv) \<longleftrightarrow>
      dialog_tail (history self user_id) \<noteq> []) \<and>
   length (assembled_parts be self query user_id k_ep k_kb k_cv) =
     (if cv_search be self query k_cv = [] then 0
      else 1 + length (cv_search be self query k_cv)) +
     (if kb_search be self query k_kb = [] then 0
      else 1 + min 5 (length (kb_search be self query k_kb))) +
     (if mem0_search be self query user_id k_ep = [] then 0
      else 1 + length (mem0_search be self query user_id k_ep)) +
     (if dialog_tail (history self user_id) = [] then 0
      else 1 + length (dialog_tail (history self user_id)))"
proof (intro conjI impI)
  assume "cv_search be self query k_cv \<noteq> [] \<and> kb_search be self query k_kb \<noteq> [] \<and>
    mem0_search be self query user_id k_ep \<noteq> [] \<and> dialog_tail (history self user_id) \<noteq> []"
  then show "\<exists>a b c d. get_relevant_context be self query user_id k_ep k_kb k_cv =
         cv_header @ a @ kb_header @ b @ ep_header @ c @ tail_header @ d"
    unfolding get_relevant_context_def assembled_parts_def Let_def
    by (intro context_text_order) simp_all
next
  show "get_relevant_context be self query user_id k_ep k_kb k_cv =
     render_sections
       [(cv_header, map (\<lambda>x. bullet @ strip (r_text x)) (cv_search be self query k_cv)),
        (kb_header, map (\<lambda>x. bullet @ take 300 (strip (r_text x)))
                      (take 5 (kb_search be self query k_kb))),
        (ep_header, map (\<lambda>x. bullet @ strip x) (mem0_search be self query user_id k_ep)),
        (tail_header, dialog_tail (history self user_id))]"
    unfolding get_relevant_context_def assembled_parts_def Let_def by (rule context_text_render)
next
  show "length (assembled_parts be self query user_id k_ep k_kb k_cv) =
     (if cv_search be self query k_cv = [] then 0
      else 1 + length (cv_search be self query k_cv)) +
     (if kb_search be self query k_kb = [] then 0
      else 1 + min 5 (length (kb_search be self query k_kb))) +
     (if mem0_search be self query user_id k_ep = [] then 0
      else 1 + length (mem0_search be self query user_id k_ep)) +
     (if dialog_tail (history self user_id) = [] then 0
      else 1 + length (dialog_tail (history self user_id)))"
    unfolding assembled_parts_def Let_def by (rule length_context_parts)
qed (rule assembled_parts_headers)+

lemma scored_filter:
  "[\<lparr>r_text = d, r_score = one_minus dst\<rparr>. (d, dst) \<leftarrow> zs, fgt (one_minus dst) th] =
     filter (\<lambda>x. fgt (r_score x) th)
       (map (\<lambda>(d, dst). \<lparr>r_text = d, r_score = one_minus dst\<rparr>) zs)"
  by (induction zs) auto

lemma fgt_irrefl: "\<not> fgt x x"
  by (cases x) (simp_all add: fgt_def)

lemma kb_search_score: "x \<in> set (kb_search be self query k) \<Longrightarrow> fgt (r_score x) double_0_3"
  by (auto simp: kb_search_def split: sum.splits if_splits)

lemma cv_search_score: "x \<in> set (cv_search be self query k) \<Longrightarrow> fgt (r_score x) double_0_2"
  by (auto simp: cv_search_def split: sum.splits if_splits)

text \<open>
  C4. When the collection is not empty and the query returns, \<open>_kb_search\<close> returns
  exactly the scored results whose score \<open>1 - distance\<close> (a double) is greater than the
  double \<open>0.3\<close>, and \<open>_cv_search\<close> exactly those greater than \<open>0.2\<close>, in the order of
  the response. The comparison is strict: a result whose score is the threshold itself is
  in no result list.
\<close>

theorem score_thresholds:
  "(kb_col self \<noteq> [] \<and>
    chroma_query be (kb_col self) query (min k (int (length (kb_col self)))) = Inr r \<longrightarrow>
      kb_search be self query k = filter (\<lambda>x. fgt (r_score x) double_0_3) (scored r)) \<and>
   (cv_col self \<noteq> [] \<and>
    chroma_query be (cv_col self) query (min k (int (length (cv_col self)))) = Inr r \<longrightarrow>
      cv_search be self query k = filter (\<lambda>x. fgt (r_score x) double_0_2) (scored r)) \<and>
   (r_score x = double_0_3 \<longrightarrow> x \<notin> set (kb_search be self query k)) \<and>
   (r_score x = double_0_2 \<longrightarrow> x \<notin> set (cv_search be self query k))"
proof (intro conjI impI)
  assume "kb_col self \<noteq> [] \<and>
    chroma_query be (kb_col self) query (min k (int (length (kb_col self)))) = Inr r"
  then show "kb_search be self query k = filter (\<lambda>x. fgt (r_score x) double_0_3) (scored r)"
    unfolding kb_search_def scored_def scored_filter [symmetric] by simp
next
  assume "cv_col self \<noteq> [] \<and>
    chroma_query be (cv_col self) query (min k (int (length (cv_col self)))) = Inr r"
  then show "cv_search be self query k = filter (\<lambda>x. fgt (r_score x) double_0_2) (scored r)"
    unfolding cv_search_def scored_def scored_filter [symmetric] by simp
next
  assume "r_score x = double_0_3"
  then show "x \<notin> set (kb_search be self query k)"
    using kb_search_score [of x be self query k] fgt_irrefl [of double_0_3] by auto
next
  assume "r_score x = double_0_2"
  then show "x \<notin> set (cv_search be self query k)"
    using cv_search_score [of x be self query k] fgt_irrefl [of double_0_2] by auto
qed

text \<open>
  On the doubles \<open>0.71\<close>, \<open>0.7\<close>, \<open>0.69\<close> as distances, the scores are
  \<open>0.29000000000000004\<close>, \<open>0.30000000000000004\<close> and \<open>0.31000000000000005\<close>, and the KB
  search keeps the last two. On \<open>0.81\<close>, \<open>0.8\<close>, \<open>0.79\<close> the scores are
  \<open>0.18999999999999995\<close>, \<open>0.19999999999999996\<close> and \<open>0.20999999999999996\<close>, and the CV
  search keeps the last one. A result scored \<open>0.3\<close> itself is not returned, and the
  doubles \<open>0.31\<close> and \<open>0.21\<close> are greater than the thresholds.
\<close>

theorem score_thresholds_witness:
  "scored \<lparr>documents = [ascii ''d1'', ascii ''d2'', ascii ''d3''],
           distances = [Finite 799388933858263 (- 50), Finite 3152519739159347 (- 52),
                        Finite 1553741871442821 (- 51)]\<rparr> =
     [\<lparr>r_text = ascii ''d1'', r_score = Finite 326510972984361 (- 50)\<rparr>,
      \<lparr>r_text = ascii ''d2'', r_score = Finite 1351079888211149 (- 52)\<rparr>,
      \<lparr>r_text = ascii ''d3'', r_score = Finite 698057942242427 (- 51)\<rparr>] \<and>
   kb_search (fixed_backend [ascii ''d1'', ascii ''d2'', ascii ''d3'']
                [Finite 799388933858263 (- 50), Finite 3152519739159347 (- 52),
                 Finite 1553741871442821 (- 51)] []) demo_manager (ascii ''q'') 8 =
     [\<lparr>r_text = ascii ''d2'', r_score = Finite 1351079888211149 (- 52)\<rparr>,
      \<lparr>r_text = ascii ''d3'', r_score = Finite 698057942242427 (- 51)\<rparr>] \<and>
   scored \<lparr>documents = [ascii ''d1'', ascii ''d2'', ascii ''d3''],
           distances = [Finite 1823957849085051 (- 51), Finite 3602879701896397 (- 52),
                        Finite 889460926405673 (- 50)]\<rparr> =
     [\<lparr>r_text = ascii ''d1'', r_score = Finite 427841964600197 (- 51)\<rparr>,
      \<lparr>r_text = ascii ''d2'', r_score = Finite 900719925474099 (- 52)\<rparr>,
      \<lparr>r_text = ascii ''d3'', r_score = Finite 236438980436951 (- 50)\<rparr>] \<and>
   cv_search (fixed_backend [ascii ''d1'', ascii ''d2'', ascii ''d3'']
                [Finite 1823957849085051 (- 51), Finite 3602879701896397 (- 52),
                 Finite 889460926405673 (- 50)] []) demo_manager (ascii ''q'') 6 =
     [\<lparr>r_text = ascii ''d3'', r_score = Finite 236438980436951 (- 50)\<rparr>] \<and>
   \<lparr>r_text = ascii ''d1'', r_score = double_0_3\<rparr> \<notin>
     set (kb_search (fixed_backend [ascii ''d1'', ascii ''d2'', ascii ''d3'']
                [Finite 799388933858263 (- 50), Finite 3152519739159347 (- 52),
                 Finite 1553741871442821 (- 51)] []) demo_manager (ascii ''q'') 8) \<and>
   fgt (Finite 5584463537939415 (- 54)) double_0_3 \<and>
   fgt (Finite 7566047373982433 (- 55)) double_0_2"
proof -
  let ?docs = "[ascii ''d1'', ascii ''d2'', ascii ''d3'']"
  let ?kd = "[Finite 799388933858263 (- 50), Finite 3152519739159347 (- 52),
              Finite 1553741871442821 (- 51)]"
  let ?cd = "[Finite 1823957849085051 (- 51), Finite 3602879701896397 (- 52),
              Finite 889460926405673 (- 50)]"
  let ?kb = "\<lparr>documents = ?docs, distances = ?kd\<rparr>"
  let ?cv = "\<lparr>documents = ?docs, distances = ?cd\<rparr>"
  let ?x = "\<lparr>r_text = ascii ''d1'', r_score = double_0_3\<rparr>"
  have m: "one_minus (Finite 799388933858263 (- 50)) = Finite 326510972984361 (- 50)"
    "one_minus (Finite 3152519739159347 (- 52)) = Finite 1351079888211149 (- 52)"
    "one_minus (Finite 1553741871442821 (- 51)) = Finite 698057942242427 (- 51)"
    "one_minus (Finite 1823957849085051 (- 51)) = Finite 427841964600197 (- 51)"
    "one_minus (Finite 3602879701896397 (- 52)) = Finite 900719925474099 (- 52)"
    "one_minus (Finite 889460926405673 (- 50)) = Finite 236438980436951 (- 50)"
    by code_simp+
  have g: "\<not> fgt (Finite 326510972984361 (- 50)) double_0_3"
    "fgt (Finite 1351079888211149 (- 52)) double_0_3"
    "fgt (Finite 698057942242427 (- 51)) double_0_3"
    "\<not> fgt (Finite 427841964600197 (- 51)) double_0_2"
    "\<not> fgt (Finite 900719925474099 (- 52)) double_0_2"
    "fgt (Finite 236438980436951 (- 50)) double_0_2"
    by code_simp+
  have s1: "scored ?kb =
     [\<lparr>r_text = ascii ''d1'', r_score = Finite 326510972984361 (- 50)\<rparr>,
      \<lparr>r_text = ascii ''d2'', r_score = Finite 1351079888211149 (- 52)\<rparr>,
      \<lparr>r_text = ascii ''d3'', r_score = Finite 698057942242427 (- 51)\<rparr>]"
    by (simp add: scored_def m)
  have s2: "scored ?cv =
     [\<lparr>r_text = ascii ''d1'', r_score = Finite 427841964600197 (- 51)\<rparr>,
      \<lparr>r_text = ascii ''d2'', r_score = Finite 900719925474099 (- 52)\<rparr>,
      \<lparr>r_text = ascii ''d3'', r_score = Finite 236438980436951 (- 50)\<rparr>]"
    by (simp add: scored_def m)
  have h1: "kb_col demo_manager \<noteq> [] \<and>
    chroma_query (fixed_backend ?docs ?kd []) (kb_col demo_manager) (ascii ''q'')
      (min 8 (int (length (kb_col demo_manager)))) = Inr ?kb"
    by (simp add: demo_manager_def fixed_backend_def)
  have h2: "cv_col demo_manager \<noteq> [] \<and>
    chroma_query (fixed_backend ?docs ?cd []) (cv_col demo_manager) (ascii ''q'')
      (min 6 (int (length (cv_col demo_manager)))) = Inr ?cv"
    by (simp add: demo_manager_def fixed_backend_def)
  have rx: "r_score ?x = double_0_3"
    by simp
  have k: "kb_search (fixed_backend ?docs ?kd []) demo_manager (ascii ''q'') 8 =
      filter (\<lambda>x. fgt (r_score x) double_0_3) (scored ?kb)"
    and n: "?x \<notin> set (kb_search (fixed_backend ?docs ?kd []) demo_manager (ascii ''q'') 8)"
    using score_thresholds [of demo_manager "fixed_backend ?docs ?kd []" "ascii ''q''" 8 ?kb ?x] h1 rx
    by blast+
  have c: "cv_search (fixed_backend ?docs ?cd []) demo_manager (ascii ''q'') 6 =
      filter (\<lambda>x. fgt (r_score x) double_0_2) (scored ?cv)"
    using score_thresholds [of demo_manager "fixed_backend ?docs ?cd []" "ascii ''q''" 6 ?cv ?x] h2
    by blast
  have k': "kb_search (fixed_backend ?docs ?kd []) demo_manager (ascii ''q'') 8 =
     [\<lparr>r_text = ascii ''d2'', r_score = Finite 1351079888211149 (- 52)\<rparr>,
      \<lparr>r_text = ascii ''d3'', r_score = Finite 698057942242427 (- 51)\<rparr>]"
    unfolding k s1 by (simp add: g)
  have c': "cv_search (fixed_backend ?docs ?cd []) demo_manager (ascii ''q'') 6 =
     [\<lparr>r_text = ascii ''d3'', r_score = Finite 236438980436951 (- 50)\<rparr>]"
    unfolding c s2 by (simp add: g)
  have b: "fgt (Finite 5584463537939415 (- 54)) double_0_3"
    "fgt (Finite 7566047373982433 (- 55)) double_0_2"
    by code_simp+
  from s1 k' s2 c' n b show ?thesis
    by blast
qed

lemma half_score:
  "one_minus (Finite 1 (- 1)) = Finite 1 (- 1)"
  "fgt (Finite 1 (- 1)) double_0_3" "fgt (Finite 1 (- 1)) double_0_2"
  by code_simp+

lemma demo_searches:
  "dists = [Finite 1 (- 1)] \<Longrightarrow> cv_search (fixed_backend [doc] dists ms) demo_manager q 6 =
     [\<lparr>r_text = doc, r_score = Finite 1 (- 1)\<rparr>]"
  "dists = [Finite 1 (- 1)] \<Longrightarrow> kb_search (fixed_backend [doc] dists ms) demo_manager q 8 =
     [\<lparr>r_text = doc, r_score = Finite 1 (- 1)\<rparr>]"
  "mem0_search (fixed_backend docs dists ms) demo_manager q u 5 = take 5 ms"
  using py_slice_to_nat [of ms 5]
  by (simp_all add: cv_search_def kb_search_def mem0_search_def fixed_backend_def demo_manager_def
      half_score)

lemma demo_tail:
  "dialog_tail (history demo_manager (ascii ''u1'')) =
     [ascii ''User: hi'' @ [10] @ ascii ''Assistant: hello'']"
proof -
  have "history demo_manager (ascii ''u1'') = [\<lparr>turn_q = ascii ''hi'', turn_a = ascii ''hello''\<rparr>]"
    by (simp add: history_def demo_manager_def)
  moreover have "py_slice_to (ascii ''hello'') 200 = ascii ''hello''"
    using py_slice_to_nat [of "ascii ''hello''" 200] by (simp add: ascii_def)
  ultimately show ?thesis
    by (simp add: dialog_tail_def py_slice_from_m3 ascii_def)
qed

lemma empty_searches:
  "cv_search (fixed_backend [] [] ms) self q k = []"
  "kb_search (fixed_backend [] [] ms) self q k = []"
  by (simp_all add: cv_search_def kb_search_def fixed_backend_def)

lemma strip_tea: "strip (ascii ''tea'') = ascii ''tea''"
  by (simp add: strip_def isspace_def ascii_def)

text \<open>
  With a document, a memory and a turn, the four headers come in order and there are
  eight parts. With no document, the memory \<open>tea\<close> and the turn of user \<open>u1\<close>, the text
  is the episodic section followed by the recent messages, with no line of the CV or KB
  section. With nothing at all, there is no part.
\<close>

theorem context_section_order_witness:
  "cv_search (fixed_backend [ascii ''doc''] [Finite 1 (- 1)] [ascii ''tea'']) demo_manager (ascii ''q'') 6 \<noteq> [] \<and>
   kb_search (fixed_backend [ascii ''doc''] [Finite 1 (- 1)] [ascii ''tea'']) demo_manager (ascii ''q'') 8 \<noteq> [] \<and>
   mem0_search (fixed_backend [ascii ''doc''] [Finite 1 (- 1)] [ascii ''tea'']) demo_manager (ascii ''q'')
     (ascii ''u1'') 5 \<noteq> [] \<and>
   dialog_tail (history demo_manager (ascii ''u1'')) \<noteq> [] \<and>
   (\<exists>a b c d. get_relevant_context (fixed_backend [ascii ''doc''] [Finite 1 (- 1)] [ascii ''tea''])
        demo_manager (ascii ''q'') (ascii ''u1'') 5 8 6 =
      cv_header @ a @ kb_header @ b @ ep_header @ c @ tail_header @ d) \<and>
   length (assembled_parts (fixed_backend [ascii ''doc''] [Finite 1 (- 1)] [ascii ''tea'']) demo_manager
     (ascii ''q'') (ascii ''u1'') 5 8 6) = 8 \<and>
   get_relevant_context (fixed_backend [] [] [ascii ''tea'']) demo_manager (ascii ''q'')
       (ascii ''u1'') 5 8 6 =
     ep_header @ [10] @ bullet @ ascii ''tea'' @ [10] @ tail_header @ [10] @
     ascii ''User: hi'' @ [10] @ ascii ''Assistant: hello'' \<and>
   cv_header \<notin> set (assembled_parts (fixed_backend [] [] []) new_manager (ascii ''q'')
     (ascii ''u1'') 5 8 6) \<and>
   length (assembled_parts (fixed_backend [] [] []) new_manager (ascii ''q'') (ascii ''u1'') 5 8 6) = 0"
proof -
  let ?be = "fixed_backend [ascii ''doc''] [Finite 1 (- 1)] [ascii ''tea'']"
  let ?be3 = "fixed_backend [] [] [ascii ''tea'']"
  have cv: "cv_search ?be demo_manager (ascii ''q'') 6 = [\<lparr>r_text = ascii ''doc'', r_score = Finite 1 (- 1)\<rparr>]"
    and kb: "kb_search ?be demo_manager (ascii ''q'') 8 = [\<lparr>r_text = ascii ''doc'', r_score = Finite 1 (- 1)\<rparr>]"
    and ep: "mem0_search ?be demo_manager (ascii ''q'') (ascii ''u1'') 5 = [ascii ''tea'']"
    and ep3: "mem0_search ?be3 demo_manager (ascii ''q'') (ascii ''u1'') 5 = [ascii ''tea'']"
    by (simp_all add: demo_searches)
  note thm1 = context_section_order [of ?be demo_manager "ascii ''q''" 6 8 "ascii ''u1''" 5]
  note thm2 = context_section_order [of "fixed_backend [] [] []" new_manager "ascii ''q''" 6 8
      "ascii ''u1''" 5]
  note thm3 = context_section_order [of ?be3 demo_manager "ascii ''q''" 6 8 "ascii ''u1''" 5]
  note len = conjunct2 [THEN conjunct2, THEN conjunct2, THEN conjunct2, THEN conjunct2,
      THEN conjunct2]
  have tl: "dialog_tail (history new_manager (ascii ''u1'')) = []"
    by (simp add: history_new_manager dialog_tail_Nil)
  have a: "\<exists>a b c d. get_relevant_context ?be demo_manager (ascii ''q'') (ascii ''u1'') 5 8 6 =
      cv_header @ a @ kb_header @ b @ ep_header @ c @ tail_header @ d"
    using thm1 [THEN conjunct1] by (simp add: cv kb ep demo_tail)
  have b: "length (assembled_parts ?be demo_manager (ascii ''q'') (ascii ''u1'') 5 8 6) = 8"
    using thm1 [THEN len] by (simp add: cv kb ep demo_tail)
  have "get_relevant_context ?be3 demo_manager (ascii ''q'') (ascii ''u1'') 5 8 6 =
     render_sections
       [(cv_header, []), (kb_header, []), (ep_header, [bullet @ ascii ''tea'']),
        (tail_header, [ascii ''User: hi'' @ [10] @ ascii ''Assistant: hello''])]"
    using thm3 [THEN conjunct2, THEN conjunct1]
    by (simp add: empty_searches ep3 demo_tail strip_tea)
  then have e: "get_relevant_context ?be3 demo_manager (ascii ''q'') (ascii ''u1'') 5 8 6 =
     ep_header @ [10] @ bullet @ ascii ''tea'' @ [10] @ tail_header @ [10] @
     ascii ''User: hi'' @ [10] @ ascii ''Assistant: hello''"
    by (simp add: render_sections_def)
  have c: "cv_header \<notin> set (assembled_parts (fixed_backend [] [] []) new_manager (ascii ''q'')
     (ascii ''u1'') 5 8 6)"
    using thm2 [THEN conjunct2, THEN conjunct2, THEN conjunct1]
    by (simp add: searches_new_manager)
  have d: "length (assembled_parts (fixed_backend [] [] []) new_manager (ascii ''q'')
     (ascii ''u1'') 5 8 6) = 0"
    using thm2 [THEN len] by (simp add: searches_new_manager tl)
  from a b c d e show ?thesis
    by (simp add: cv kb ep demo_tail)
qed

lemma context_parts_cv_line:
  assumes "i < length cv"
  shows "context_parts cv kb ep tail ! Suc i = bullet @ strip (r_text (cv ! i))"
proof -
  from assms have "cv \<noteq> []"
    by auto
  with assms show ?thesis
    by (simp add: context_parts_def nth_append)
qed

lemma context_parts_kb_line:
  assumes "i < length kb" and "i < 5"
  shows "context_parts cv kb ep tail ! ((if cv = [] then 0 else Suc (length cv)) + Suc i) =
           bullet @ take 300 (strip (r_text (kb ! i)))"
proof -
  from assms have "kb \<noteq> []"
    by auto
  with assms show ?thesis
    by (simp add: context_parts_def nth_append py_slice_to_5 py_slice_to_300)
qed

lemma join_tail_shape:
  assumes "R = [] \<or> (\<exists>h R'. h \<in> H \<and> R = h # R')"
  shows "concat (map (\<lambda>y. [10] @ y) R) = [] \<or>
         (\<exists>h t. h \<in> H \<and> concat (map (\<lambda>y. [10] @ y) R) = 10 # h @ t)"
  using assms by auto

lemma context_text_cv_block:
  assumes "cv \<noteq> []"
  shows "\<exists>rest. context_text (context_parts cv kb ep tail) =
           cv_header @ concat (map (\<lambda>x. 10 # bullet @ strip (r_text x)) cv) @ rest \<and>
           (rest = [] \<or> (\<exists>h t. h \<in> {kb_header, ep_header, tail_header} \<and> rest = 10 # h @ t))"
proof -
  let ?R = "context_parts [] kb ep tail"
  let ?rest = "concat (map (\<lambda>y. [10] @ y) ?R)"
  have "?R = [] \<or> (\<exists>h R'. h \<in> {kb_header, ep_header, tail_header} \<and> ?R = h # R')"
    by (auto simp: context_parts_def)
  then have r: "?rest = [] \<or>
      (\<exists>h t. h \<in> {kb_header, ep_header, tail_header} \<and> ?rest = 10 # h @ t)"
    by (rule join_tail_shape)
  have "context_text (context_parts cv kb ep tail) =
      cv_header @ concat (map (\<lambda>x. 10 # bullet @ strip (r_text x)) cv) @ ?rest"
    using assms by (simp add: context_text_def context_parts_def py_join_Cons comp_def)
  with r show ?thesis
    by blast
qed

lemma context_text_kb_block:
  assumes "kb \<noteq> []"
  shows "\<exists>rest. context_text (context_parts cv kb ep tail) =
           (if cv = [] then []
            else cv_header @ concat (map (\<lambda>x. 10 # bullet @ strip (r_text x)) cv) @ [10]) @
           kb_header @
           concat (map (\<lambda>x. 10 # bullet @ take 300 (strip (r_text x))) (take 5 kb)) @ rest \<and>
           (rest = [] \<or> (\<exists>h t. h \<in> {ep_header, tail_header} \<and> rest = 10 # h @ t))"
proof -
  let ?R = "context_parts [] [] ep tail"
  let ?rest = "concat (map (\<lambda>y. [10] @ y) ?R)"
  have "?R = [] \<or> (\<exists>h R'. h \<in> {ep_header, tail_header} \<and> ?R = h # R')"
    by (auto simp: context_parts_def)
  then have r: "?rest = [] \<or> (\<exists>h t. h \<in> {ep_header, tail_header} \<and> ?rest = 10 # h @ t)"
    by (rule join_tail_shape)
  have "context_text (context_parts cv kb ep tail) =
      (if cv = [] then []
       else cv_header @ concat (map (\<lambda>x. 10 # bullet @ strip (r_text x)) cv) @ [10]) @
      kb_header @
      concat (map (\<lambda>x. 10 # bullet @ take 300 (strip (r_text x))) (take 5 kb)) @ ?rest"
    using assms by (simp add: context_text_def context_parts_def py_join_Cons comp_def
        py_slice_to_5 py_slice_to_300)
  with r show ?thesis
    by blast
qed

text \<open>
  C9. When the CV search of a call returns results, the returned context is the CV header
  and then, for each CV result in turn, a newline, the bullet and the whole stripped text
  of the result; what follows is nothing, or a newline and the header of a later section.
  When the KB search returns results, the returned context is the CV section if there is
  one, then the KB header and, for each of the first five KB results in turn, a newline,
  the bullet and the first 300 characters of the stripped text of the result; what
  follows is nothing, or a newline and the header of a later section. Part by part: the
  line of the \<open>i\<close>-th CV result is the bullet followed by its whole stripped text, and the
  line of the \<open>i\<close>-th KB result (of the first five) is the bullet followed by the first
  300 characters of its stripped text.
\<close>

theorem context_truncation:
  "(cv_search be self query k_cv \<noteq> [] \<longrightarrow>
      (\<exists>rest. get_relevant_context be self query user_id k_ep k_kb k_cv =
         cv_header @
         concat (map (\<lambda>x. 10 # bullet @ strip (r_text x)) (cv_search be self query k_cv)) @ rest \<and>
         (rest = [] \<or>
          (\<exists>h t. h \<in> {kb_header, ep_header, tail_header} \<and> rest = 10 # h @ t)))) \<and>
   (kb_search be self query k_kb \<noteq> [] \<longrightarrow>
      (\<exists>rest. get_relevant_context be self query user_id k_ep k_kb k_cv =
         (if cv_search be self query k_cv = [] then []
          else cv_header @
               concat (map (\<lambda>x. 10 # bullet @ strip (r_text x)) (cv_search be self query k_cv)) @
               [10]) @
         kb_header @
         concat (map (\<lambda>x. 10 # bullet @ take 300 (strip (r_text x)))
                   (take 5 (kb_search be self query k_kb))) @ rest \<and>
         (rest = [] \<or> (\<exists>h t. h \<in> {ep_header, tail_header} \<and> rest = 10 # h @ t)))) \<and>
   (i < length (cv_search be self query k_cv) \<longrightarrow>
      assembled_parts be self query user_id k_ep k_kb k_cv ! Suc i =
        bullet @ strip (r_text (cv_search be self query k_cv ! i))) \<and>
   (i < length (kb_search be self query k_kb) \<and> i < 5 \<longrightarrow>
      assembled_parts be self query user_id k_ep k_kb k_cv !
          ((if cv_search be self query k_cv = [] then 0
            else Suc (length (cv_search be self query k_cv))) + Suc i) =
        bullet @ take 300 (strip (r_text (kb_search be self query k_kb ! i))))"
proof (intro conjI impI)
  assume "cv_search be self query k_cv \<noteq> []"
  then show "\<exists>rest. get_relevant_context be self query user_id k_ep k_kb k_cv =
         cv_header @
         concat (map (\<lambda>x. 10 # bullet @ strip (r_text x)) (cv_search be self query k_cv)) @ rest \<and>
         (rest = [] \<or>
          (\<exists>h t. h \<in> {kb_header, ep_header, tail_header} \<and> rest = 10 # h @ t))"
    unfolding get_relevant_context_def assembled_parts_def Let_def
    by (rule context_text_cv_block)
next
  assume "kb_search be self query k_kb \<noteq> []"
  then show "\<exists>rest. get_relevant_context be self query user_id k_ep k_kb k_cv =
         (if cv_search be self query k_cv = [] then []
          else cv_header @
               concat (map (\<lambda>x. 10 # bullet @ strip (r_text x)) (cv_search be self query k_cv)) @
               [10]) @
         kb_header @
         concat (map (\<lambda>x. 10 # bullet @ take 300 (strip (r_text x)))
                   (take 5 (kb_search be self query k_kb))) @ rest \<and>
         (rest = [] \<or> (\<exists>h t. h \<in> {ep_header, tail_header} \<and> rest = 10 # h @ t))"
    unfolding get_relevant_context_def assembled_parts_def Let_def
    by (rule context_text_kb_block)
next
  assume "i < length (cv_search be self query k_cv)"
  then show "assembled_parts be self query user_id k_ep k_kb k_cv ! Suc i =
        bullet @ strip (r_text (cv_search be self query k_cv ! i))"
    unfolding assembled_parts_def Let_def by (rule context_parts_cv_line)
next
  assume "i < length (kb_search be self query k_kb) \<and> i < 5"
  then show "assembled_parts be self query user_id k_ep k_kb k_cv !
          ((if cv_search be self query k_cv = [] then 0
            else Suc (length (cv_search be self query k_cv))) + Suc i) =
        bullet @ take 300 (strip (r_text (kb_search be self query k_kb ! i)))"
    unfolding assembled_parts_def Let_def using context_parts_kb_line by blast
qed

lemma strip_padded:
  assumes "s \<noteq> []" and "\<not> isspace (hd s)" and "\<not> isspace (last s)"
  shows "strip (32 # s @ [32]) = s"
proof -
  obtain x xs where s: "s = x # xs"
    using assms(1) by (cases s) auto
  have sp: "isspace 32"
    by (simp add: isspace_def)
  have "dropWhile isspace (32 # s @ [32]) = s @ [32]"
    using assms(2) sp by (simp add: s)
  moreover have "dropWhile isspace (rev (s @ [32])) = rev s"
  proof -
    obtain y ys where r: "rev s = y # ys"
      using assms(1) by (cases "rev s") auto
    then have "y = last s"
      by (metis last_rev list.sel(1) rev_rev_ident)
    with assms(3) sp show ?thesis
      by (simp add: r)
  qed
  ultimately show ?thesis
    by (simp add: strip_def)
qed

text \<open>
  A document of 400 letters between two spaces, returned by both searches with no
  memory, for the user \<open>u1\<close> who has one turn: the context has the 400 letters in the
  CV section and 300 of them in the KB section, and the recent messages follow.
\<close>

theorem context_truncation_witness:
  "get_relevant_context (fixed_backend [32 # replicate 400 97 @ [32]] [Finite 1 (- 1)] [])
       demo_manager (ascii ''q'') (ascii ''u1'') 5 8 6 =
     cv_header @ [10] @ bullet @ replicate 400 97 @ [10] @
     kb_header @ [10] @ bullet @ replicate 300 97 @ [10] @
     tail_header @ [10] @ ascii ''User: hi'' @ [10] @ ascii ''Assistant: hello'' \<and>
   assembled_parts (fixed_backend [32 # replicate 400 97 @ [32]] [Finite 1 (- 1)] []) demo_manager
       (ascii ''q'') (ascii ''u1'') 5 8 6 ! Suc 0 = bullet @ replicate 400 97 \<and>
   assembled_parts (fixed_backend [32 # replicate 400 97 @ [32]] [Finite 1 (- 1)] []) demo_manager
       (ascii ''q'') (ascii ''u1'') 5 8 6 ! Suc (Suc (Suc 0)) =
         bullet @ replicate 300 97"
proof -
  let ?doc = "32 # replicate 400 97 @ [32]"
  let ?be = "fixed_backend [?doc] [Finite 1 (- 1)] []"
  let ?g = "get_relevant_context ?be demo_manager (ascii ''q'') (ascii ''u1'') 5 8 6"
  let ?tl = "ascii ''User: hi'' @ [10] @ ascii ''Assistant: hello''"
  have cv: "cv_search ?be demo_manager (ascii ''q'') 6 = [\<lparr>r_text = ?doc, r_score = Finite 1 (- 1)\<rparr>]"
    and kb: "kb_search ?be demo_manager (ascii ''q'') 8 = [\<lparr>r_text = ?doc, r_score = Finite 1 (- 1)\<rparr>]"
    and ep: "mem0_search ?be demo_manager (ascii ''q'') (ascii ''u1'') 5 = []"
    by (simp_all add: demo_searches)
  have st: "strip ?doc = replicate 400 97"
    by (rule strip_padded) (simp_all add: isspace_def)
  note inst = context_truncation [of ?be demo_manager "ascii ''q''" 6 "ascii ''u1''" 5 8 0]
  from inst obtain rest where
    g: "?g = (cv_header @ (10 # bullet @ replicate 400 97) @ [10]) @ kb_header @
             (10 # bullet @ take 300 (replicate 400 97)) @ rest"
    and r: "rest = [] \<or> (\<exists>h t. h \<in> {ep_header, tail_header} \<and> rest = 10 # h @ t)"
    by (auto simp: cv kb st)
  have "?g = context_text (context_parts [\<lparr>r_text = ?doc, r_score = Finite 1 (- 1)\<rparr>]
      [\<lparr>r_text = ?doc, r_score = Finite 1 (- 1)\<rparr>] [] [?tl])"
    by (simp add: get_relevant_context_def assembled_parts_def cv kb ep demo_tail)
  also have "\<dots> = (cv_header @ (10 # bullet @ replicate 400 97) @ [10]) @ kb_header @
             (10 # bullet @ take 300 (replicate 400 97)) @ (10 # tail_header @ 10 # ?tl)"
    by (simp add: context_text_def context_parts_def py_join_Cons py_slice_to_5 py_slice_to_300 st)
  finally have "rest = 10 # tail_header @ 10 # ?tl"
    using g by simp
  with g have 0: "?g = cv_header @ [10] @ bullet @ replicate 400 97 @ [10] @
     kb_header @ [10] @ bullet @ replicate 300 97 @ [10] @ tail_header @ [10] @ ?tl"
    by simp
  have 1: "assembled_parts ?be demo_manager (ascii ''q'') (ascii ''u1'') 5 8 6 ! Suc 0 =
      bullet @ replicate 400 97"
    using inst by (simp add: cv st)
  have 2: "assembled_parts ?be demo_manager (ascii ''q'') (ascii ''u1'') 5 8 6 ! Suc (Suc (Suc 0)) =
      bullet @ replicate 300 97"
    using inst by (simp add: cv kb st)
  from 0 1 2 show ?thesis
    by blast
qed

subsection \<open>User preferences\<close>

lemma DEFAULT_dom: "dom DEFAULT = {ascii ''lang'', ascii ''voice'', ascii ''style''}"
  by (auto simp: DEFAULT_def ascii_def)

lemma not_none_None: "kwargs k = None \<or> kwargs k = Some PyNone \<Longrightarrow> not_none kwargs k = None"
  by (auto simp: not_none_def)

lemma prefs_get_snd: "snd (prefs_get f user_id) = DEFAULT ++ stored (snd (load f)) user_id"
  by (simp add: prefs_get_def case_prod_beta)

lemma prefs_set_snd:
  "snd (prefs_set f user_id kwargs) = (DEFAULT ++ stored (snd (load f)) user_id) ++ not_none kwargs"
  by (simp add: prefs_set_def case_prod_beta Let_def)

lemma prefs_set_fst:
  "fst (prefs_set f user_id kwargs) =
     Json ((snd (load f))(py_str user_id \<mapsto> snd (prefs_set f user_id kwargs)))"
  by (simp add: prefs_set_def case_prod_beta Let_def)

lemma prefs_get_after_set:
  "snd (prefs_get (fst (prefs_set f user_id kwargs)) user_id) =
     DEFAULT ++ snd (prefs_set f user_id kwargs)"
  by (simp add: prefs_get_snd prefs_set_fst load_def stored_def)

text \<open>
  C10. For every user id, the records returned by \<open>get\<close> and by \<open>set\<close> have the
  three fields \<open>lang\<close>, \<open>voice\<close> and \<open>style\<close>; a field the stored record of the user
  does not have (and that \<open>set\<close> is not given, or is given as \<open>None\<close>) has its default
  value; and a field passed to \<open>set\<close> as \<open>None\<close> keeps the value it had, in the record
  returned and in what \<open>get\<close> reads back afterwards.
\<close>

theorem prefs_defaults:
  "{ascii ''lang'', ascii ''voice'', ascii ''style''} \<subseteq> dom (snd (prefs_get f user_id)) \<and>
   {ascii ''lang'', ascii ''voice'', ascii ''style''} \<subseteq> dom (snd (prefs_set f user_id kwargs)) \<and>
   (stored (snd (load f)) user_id k = None \<longrightarrow> snd (prefs_get f user_id) k = DEFAULT k) \<and>
   (stored (snd (load f)) user_id k = None \<and> (kwargs k = None \<or> kwargs k = Some PyNone) \<longrightarrow>
      snd (prefs_set f user_id kwargs) k = DEFAULT k) \<and>
   (kwargs k = Some PyNone \<longrightarrow>
      snd (prefs_set f user_id kwargs) k = snd (prefs_get f user_id) k \<and>
      snd (prefs_get (fst (prefs_set f user_id kwargs)) user_id) k = snd (prefs_get f user_id) k)"
proof (intro conjI impI)
  show "{ascii ''lang'', ascii ''voice'', ascii ''style''} \<subseteq> dom (snd (prefs_get f user_id))"
    using DEFAULT_dom by (auto simp: prefs_get_snd)
  show "{ascii ''lang'', ascii ''voice'', ascii ''style''} \<subseteq> dom (snd (prefs_set f user_id kwargs))"
    using DEFAULT_dom by (auto simp: prefs_set_snd)
next
  assume "stored (snd (load f)) user_id k = None"
  then show "snd (prefs_get f user_id) k = DEFAULT k"
    by (simp add: prefs_get_snd map_add_def)
next
  assume "stored (snd (load f)) user_id k = None \<and> (kwargs k = None \<or> kwargs k = Some PyNone)"
  then show "snd (prefs_set f user_id kwargs) k = DEFAULT k"
    using not_none_None [of kwargs k] by (simp add: prefs_set_snd map_add_def)
next
  assume a: "kwargs k = Some PyNone"
  then have n: "not_none kwargs k = None"
    by (simp add: not_none_None)
  then show same: "snd (prefs_set f user_id kwargs) k = snd (prefs_get f user_id) k"
    by (simp add: prefs_set_snd prefs_get_snd map_add_def)
  show "snd (prefs_get (fst (prefs_set f user_id kwargs)) user_id) k = snd (prefs_get f user_id) k"
    unfolding prefs_get_after_set using same
    by (simp add: prefs_get_snd map_add_def split: option.splits)
qed

lemma py_str_42: "py_str 42 = ascii ''42''"
  by (simp add: py_str_def digits.simps ascii_def)

theorem prefs_defaults_witness:
  "stored (snd (load Missing)) 42 (ascii ''voice'') = None \<and>
   snd (prefs_get Missing 42) (ascii ''voice'') = Some (PyStr (ascii ''ru-RU-Wavenet-D'')) \<and>
   snd (prefs_set Missing 42 [ascii ''lang'' \<mapsto> PyStr (ascii ''en-US''), ascii ''voice'' \<mapsto> PyNone])
     (ascii ''voice'') = Some (PyStr (ascii ''ru-RU-Wavenet-D'')) \<and>
   snd (prefs_set (Json [ascii ''42'' \<mapsto> [ascii ''voice'' \<mapsto> PyStr (ascii ''en-US-Wavenet-A'')]]) 42
         [ascii ''voice'' \<mapsto> PyNone]) (ascii ''voice'') =
     Some (PyStr (ascii ''en-US-Wavenet-A'')) \<and>
   snd (prefs_get (fst (prefs_set
         (Json [ascii ''42'' \<mapsto> [ascii ''voice'' \<mapsto> PyStr (ascii ''en-US-Wavenet-A'')]]) 42
         [ascii ''voice'' \<mapsto> PyNone])) 42) (ascii ''voice'') =
     Some (PyStr (ascii ''en-US-Wavenet-A''))"
proof -
  let ?kw = "[ascii ''lang'' \<mapsto> PyStr (ascii ''en-US''), ascii ''voice'' \<mapsto> PyNone]"
  let ?f = "Json [ascii ''42'' \<mapsto> [ascii ''voice'' \<mapsto> PyStr (ascii ''en-US-Wavenet-A'')]]"
  let ?kw2 = "[ascii ''voice'' \<mapsto> PyNone]"
  have s: "stored (snd (load Missing)) 42 (ascii ''voice'') = None"
    by (simp add: load_def stored_def)
  have d: "DEFAULT (ascii ''voice'') = Some (PyStr (ascii ''ru-RU-Wavenet-D''))"
    by (simp add: DEFAULT_def ascii_def)
  have k: "?kw (ascii ''voice'') = Some PyNone" "?kw2 (ascii ''voice'') = Some PyNone"
    by simp_all
  have g: "snd (prefs_get ?f 42) (ascii ''voice'') = Some (PyStr (ascii ''en-US-Wavenet-A''))"
    by (simp add: prefs_get_snd load_def stored_def py_str_42)
  from prefs_defaults [of Missing 42 ?kw "ascii ''voice''"] s d k(1)
  have 1: "snd (prefs_get Missing 42) (ascii ''voice'') = Some (PyStr (ascii ''ru-RU-Wavenet-D''))"
    and 2: "snd (prefs_set Missing 42 ?kw) (ascii ''voice'') = Some (PyStr (ascii ''ru-RU-Wavenet-D''))"
    by simp_all
  from prefs_defaults [of ?f 42 ?kw2 "ascii ''voice''"] k(2) g
  have 3: "snd (prefs_set ?f 42 ?kw2) (ascii ''voice'') = Some (PyStr (ascii ''en-US-Wavenet-A''))"
    and 4: "snd (prefs_get (fst (prefs_set ?f 42 ?kw2)) 42) (ascii ''voice'') =
      Some (PyStr (ascii ''en-US-Wavenet-A''))"
    by simp_all
  from s 1 2 3 4 show ?thesis
    by blast
qed

subsection \<open>The agent\<close>

lemma last_history_add:
  "last (history (add_conversation_memory out self u m r) u) = \<lparr>turn_q = m, turn_a = r\<rparr> \<and>
   history (add_conversation_memory out self u m r) u \<noteq> []"
proof -
  let ?hist = "history self u @ [\<lparr>turn_q = m, turn_a = r\<rparr>]"
  have h: "history (add_conversation_memory out self u m r) u = drop (length ?hist - 15) ?hist"
    by (simp only: history_add Let_def refl if_True)
  have lt: "length ?hist - 15 < length ?hist"
    by simp
  then have "last (drop (length ?hist - 15) ?hist) = last ?hist"
    by (rule last_drop)
  moreover have "drop (length ?hist - 15) ?hist \<noteq> []"
    using lt by (simp only: drop_eq_Nil not_le)
  ultimately show ?thesis
    unfolding h by simp
qed

lemma mem0_add_conversation:
  "mem0 self = Some store \<Longrightarrow>
     mem0 (add_conversation_memory (Inr ()) self u m r) = Some (store @ [(u, m, r)])"
  by (simp add: add_conversation_memory_def Let_def)

text \<open>
  C6. When the generation backend raises, \<open>generate_response\<close> returns the fixed fallback
  text for an exception; when it returns no text, or only whitespace, it returns the fixed
  fallback text for an empty answer. In both cases the exchange is recorded: the last turn
  of the user's short-term history is the message with the fallback text as the response,
  and the episodic client, when there is one and its call returns, is given the same
  exchange.
\<close>

theorem generation_fallback:
  "(model (SYSTEM_PROMPT today (get_relevant_context be memory user_message user_id 5 8 6)
            user_message) = Inl e \<longrightarrow>
      snd (generate_response model be mem0_add today memory user_message user_id) = fallback_error \<and>
      last (history (fst (generate_response model be mem0_add today memory user_message user_id))
              user_id) = \<lparr>turn_q = user_message, turn_a = fallback_error\<rparr>) \<and>
   (model (SYSTEM_PROMPT today (get_relevant_context be memory user_message user_id 5 8 6)
            user_message) = Inr t \<and>
    strip (case t of None \<Rightarrow> [] | Some s \<Rightarrow> s) = [] \<longrightarrow>
      snd (generate_response model be mem0_add today memory user_message user_id) = fallback_empty \<and>
      last (history (fst (generate_response model be mem0_add today memory user_message user_id))
              user_id) = \<lparr>turn_q = user_message, turn_a = fallback_empty\<rparr>) \<and>
   history (fst (generate_response model be mem0_add today memory user_message user_id)) user_id
     \<noteq> [] \<and>
   (mem0 memory = Some store \<and> mem0_add = Inr () \<longrightarrow>
      mem0 (fst (generate_response model be mem0_add today memory user_message user_id)) =
        Some (store @ [(user_id, user_message,
                snd (generate_response model be mem0_add today memory user_message user_id))]))"
  by (simp add: generate_response_def Let_def last_history_add mem0_add_conversation)


theorem generation_fallback_witness:
  "snd (generate_response (\<lambda>p. Inl BackendError) (fixed_backend [] [] []) (Inr ())
          (ascii ''03.11.2026'') demo_manager (ascii ''hi'') (ascii ''u1'')) = fallback_error \<and>
   last (history (fst (generate_response (\<lambda>p. Inl BackendError) (fixed_backend [] [] []) (Inr ())
          (ascii ''03.11.2026'') demo_manager (ascii ''hi'') (ascii ''u1''))) (ascii ''u1'')) =
     \<lparr>turn_q = ascii ''hi'', turn_a = fallback_error\<rparr> \<and>
   mem0 (fst (generate_response (\<lambda>p. Inl BackendError) (fixed_backend [] [] []) (Inr ())
          (ascii ''03.11.2026'') demo_manager (ascii ''hi'') (ascii ''u1''))) =
     Some [(ascii ''u1'', ascii ''hi'', fallback_error)] \<and>
   snd (generate_response (\<lambda>p. Inr (Some (ascii ''  ''))) (fixed_backend [] [] []) (Inr ())
          (ascii ''03.11.2026'') demo_manager (ascii ''hi'') (ascii ''u1'')) = fallback_empty \<and>
   last (history (fst (generate_response (\<lambda>p. Inr (Some (ascii ''  ''))) (fixed_backend [] [] [])
          (Inr ()) (ascii ''03.11.2026'') demo_manager (ascii ''hi'') (ascii ''u1''))) (ascii ''u1'')) =
     \<lparr>turn_q = ascii ''hi'', turn_a = fallback_empty\<rparr>"
proof -
  let ?be = "fixed_backend [] [] []"
  let ?raise = "\<lambda>p::ustr. Inl BackendError :: error + ustr option"
  let ?blank = "\<lambda>p::ustr. Inr (Some (ascii ''  '')) :: error + ustr option"
  let ?p = "SYSTEM_PROMPT (ascii ''03.11.2026'')
      (get_relevant_context ?be demo_manager (ascii ''hi'') (ascii ''u1'') 5 8 6) (ascii ''hi'')"
  have r: "?raise ?p = Inl BackendError"
    by simp
  have b: "?blank ?p = Inr (Some (ascii ''  '')) \<and>
      strip (case Some (ascii ''  '') of None \<Rightarrow> [] | Some s \<Rightarrow> s) = []"
    by (simp add: strip_def isspace_def ascii_def)
  have m: "mem0 demo_manager = Some [] \<and> (Inr () :: error + unit) = Inr ()"
    by (simp add: demo_manager_def)
  note i1 = generation_fallback [of ?raise "ascii ''03.11.2026''" ?be demo_manager "ascii ''hi''"
      "ascii ''u1''" BackendError "Inr ()" "Some (ascii ''  '')" "[]"]
  note i2 = generation_fallback [of ?blank "ascii ''03.11.2026''" ?be demo_manager "ascii ''hi''"
      "ascii ''u1''" BackendError "Inr ()" "Some (ascii ''  '')" "[]"]
  from i1 r m have 1: "snd (generate_response ?raise ?be (Inr ()) (ascii ''03.11.2026'')
        demo_manager (ascii ''hi'') (ascii ''u1'')) = fallback_error"
    and 2: "last (history (fst (generate_response ?raise ?be (Inr ()) (ascii ''03.11.2026'')
        demo_manager (ascii ''hi'') (ascii ''u1''))) (ascii ''u1'')) =
        \<lparr>turn_q = ascii ''hi'', turn_a = fallback_error\<rparr>"
    and 3: "mem0 (fst (generate_response ?raise ?be (Inr ()) (ascii ''03.11.2026'')
        demo_manager (ascii ''hi'') (ascii ''u1''))) =
        Some ([] @ [(ascii ''u1'', ascii ''hi'', snd (generate_response ?raise ?be (Inr ())
          (ascii ''03.11.2026'') demo_manager (ascii ''hi'') (ascii ''u1'')))])"
    by blast+
  from i2 b have 4: "snd (generate_response ?blank ?be (Inr ()) (ascii ''03.11.2026'')
        demo_manager (ascii ''hi'') (ascii ''u1'')) = fallback_empty"
    and 5: "last (history (fst (generate_response ?blank ?be (Inr ()) (ascii ''03.11.2026'')
        demo_manager (ascii ''hi'') (ascii ''u1''))) (ascii ''u1'')) =
        \<lparr>turn_q = ascii ''hi'', turn_a = fallback_empty\<rparr>"
    by blast+
  from 1 2 3 4 5 show ?thesis
    by simp
qed

subsection \<open>Indexing the CV\<close>

lemma cv_fragments_nonempty: "cv_fragments d \<noteq> []"
  by (simp add: cv_fragments_def)

lemma col_upsert_append: "i \<notin> fst ` set col \<Longrightarrow> col_upsert col (i, d) = col @ [(i, d)]"
  by (induction col) auto

lemma foldl_col_upsert_distinct:
  "distinct (map fst col @ map fst xs) \<Longrightarrow> foldl col_upsert col xs = col @ xs"
proof (induction xs arbitrary: col)
  case Nil
  then show ?case by simp
next
  case (Cons x xs)
  obtain i d where x: "x = (i, d)"
    by (cases x) auto
  from Cons.prems have "i \<notin> fst ` set col"
    by (auto simp: x)
  then have u: "col_upsert col x = col @ [x]"
    by (simp add: x col_upsert_append)
  from Cons.prems have "distinct (map fst (col @ [x]) @ map fst xs)"
    by auto
  then have "foldl col_upsert (col @ [x]) xs = (col @ [x]) @ xs"
    by (rule Cons.IH)
  with u show ?case
    by simp
qed

lemma col_add_empty:
  "distinct (map fst frs) \<Longrightarrow> col_add [] (map snd frs) (map fst frs) = frs"
  using foldl_col_upsert_distinct [of "[]" frs] by (simp add: col_add_def zip_map_fst_snd)


lemma length_highlight_fragments: "length (highlight_fragments w i j hs) = length hs"
  by (induction hs arbitrary: j) simp_all

lemma length_work_fragments:
  "length (work_fragments i ws) = (\<Sum>w\<leftarrow>ws. 2 + length (w_highlights w))"
  by (induction ws arbitrary: i) (simp_all add: length_highlight_fragments)

lemma length_achievement_fragments: "length (achievement_fragments i xs) = length xs"
  by (induction xs arbitrary: i) simp_all

lemma length_cv_fragments: "length (cv_fragments CV_DATA) = 32"
  by (simp add: cv_fragments_def length_work_fragments length_achievement_fragments CV_DATA_def
      achievements_def)

lemma py_str_digit: "0 \<le> i \<Longrightarrow> i < 10 \<Longrightarrow> py_str i = [48 + nat i]"
  by (simp add: py_str_def digits.simps)

lemma cv_ids:
  "map fst (cv_fragments CV_DATA) =
     map ascii [''cv_personal_1'', ''cv_personal_2'', ''cv_contacts_1'', ''cv_contacts_2'',
       ''cv_work_0_full'', ''cv_work_0_brief'', ''cv_work_0_hl_0'', ''cv_work_0_hl_1'',
       ''cv_work_0_hl_2'', ''cv_work_1_full'', ''cv_work_1_brief'', ''cv_work_1_hl_0'',
       ''cv_work_1_hl_1'', ''cv_work_1_hl_2'', ''cv_work_2_full'', ''cv_work_2_brief'',
       ''cv_work_2_hl_0'', ''cv_work_2_hl_1'', ''cv_work_2_hl_2'', ''cv_skills_models'',
       ''cv_skills_frameworks'', ''cv_skills_infra'', ''cv_skills_all'', ''cv_education'',
       ''cv_achievement_0'', ''cv_achievement_1'', ''cv_achievement_2'', ''cv_achievement_3'',
       ''cv_achievement_4'', ''cv_achievement_5'', ''cv_achievement_6'', ''cv_achievement_7'']"
  by (simp add: cv_fragments_def CV_DATA_def achievements_def py_str_digit ascii_def)


lemma inj_ascii: "inj ascii"
proof (rule injI)
  fix s t :: string
  assume "ascii s = ascii t"
  then have "map (of_char :: char \<Rightarrow> nat) s = map of_char t"
    by (simp add: ascii_def)
  moreover have "inj (of_char :: char \<Rightarrow> nat)"
    by (rule injI) simp
  ultimately show "s = t"
    by (simp add: inj_map_eq_map)
qed

lemma distinct_cv_ids: "distinct (map fst (cv_fragments CV_DATA))"
  unfolding cv_ids
  by (subst distinct_map, rule conjI, simp, rule inj_on_subset [OF inj_ascii], simp)


lemma col_add_cv_fragments:
  "col_add [] (map snd (cv_fragments CV_DATA)) (map fst (cv_fragments CV_DATA)) =
     cv_fragments CV_DATA"
  using distinct_cv_ids by (rule col_add_empty)

lemma index_cv_populated:
  "cv_col self \<noteq> [] \<Longrightarrow> index_cv_thoroughly be out self = Inr self"
  by (simp add: index_cv_thoroughly_def)

lemma index_cv_empty:
  assumes "cv_col self = []" and "index_cv_thoroughly be out self = Inr self1"
  shows "self1 = self\<lparr>cv_col := cv_fragments CV_DATA\<rparr>"
  using assms
  by (auto simp: index_cv_thoroughly_def Let_def col_add_cv_fragments cv_fragments_nonempty
      split: sum.splits if_splits)

text \<open>
  C3. Indexing the CV is idempotent. On a collection that already holds a fragment the
  indexer changes nothing (the manager is returned as it is). On an empty collection a
  run that returns leaves the 32 fragments of the profile, and any second run returns
  that same manager: the count and the contents after two runs are those after one.
\<close>

theorem cv_index_idempotent:
  "(cv_col self \<noteq> [] \<longrightarrow> index_cv_thoroughly be out self = Inr self) \<and>
   (cv_col self = [] \<and> index_cv_thoroughly be out self = Inr self1 \<longrightarrow>
      length (cv_col self1) = 32 \<and> index_cv_thoroughly be' out' self1 = Inr self1)"
proof (intro conjI impI)
  assume "cv_col self \<noteq> []"
  then show "index_cv_thoroughly be out self = Inr self"
    by (rule index_cv_populated)
next
  assume a: "cv_col self = [] \<and> index_cv_thoroughly be out self = Inr self1"
  then have "self1 = self\<lparr>cv_col := cv_fragments CV_DATA\<rparr>"
    using index_cv_empty by blast
  then have c: "cv_col self1 = cv_fragments CV_DATA"
    by simp
  then show "length (cv_col self1) = 32"
    by (simp add: length_cv_fragments)
  from c have "cv_col self1 \<noteq> []"
    by (simp add: cv_fragments_nonempty)
  then show "index_cv_thoroughly be' out' self1 = Inr self1"
    by (rule index_cv_populated)
qed

theorem cv_index_idempotent_witness:
  "cv_col new_manager = [] \<and>
   index_cv_thoroughly (fixed_backend [] [] []) (Inr ()) new_manager =
     Inr (new_manager\<lparr>cv_col := cv_fragments CV_DATA\<rparr>) \<and>
   length (cv_col (new_manager\<lparr>cv_col := cv_fragments CV_DATA\<rparr>)) = 32 \<and>
   index_cv_thoroughly (fixed_backend [] [] []) (Inr ())
       (new_manager\<lparr>cv_col := cv_fragments CV_DATA\<rparr>) =
     Inr (new_manager\<lparr>cv_col := cv_fragments CV_DATA\<rparr>) \<and>
   cv_col demo_manager \<noteq> [] \<and>
   index_cv_thoroughly (fixed_backend [] [] []) (Inr ()) demo_manager = Inr demo_manager"
proof -
  let ?be = "fixed_backend [] [] []"
  let ?s1 = "new_manager\<lparr>cv_col := cv_fragments CV_DATA\<rparr>"
  have e: "cv_col new_manager = []"
    by (simp add: new_manager_def)
  have "\<not> list_ex (\<lambda>q. isl (chroma_query ?be (cv_col ?s1) q 2)) test_queries"
    by (simp add: list_ex_iff fixed_backend_def)
  then have once: "index_cv_thoroughly ?be (Inr ()) new_manager = Inr ?s1"
    using e by (simp add: index_cv_thoroughly_def Let_def col_add_cv_fragments cv_fragments_nonempty)
  have d: "cv_col demo_manager \<noteq> []"
    by (simp add: demo_manager_def)
  from cv_index_idempotent [of new_manager ?be "Inr ()" ?s1 ?be "Inr ()"] e once
  have 1: "length (cv_col ?s1) = 32" and 2: "index_cv_thoroughly ?be (Inr ()) ?s1 = Inr ?s1"
    by blast+
  from cv_index_idempotent [of demo_manager ?be "Inr ()"] d
  have 3: "index_cv_thoroughly ?be (Inr ()) demo_manager = Inr demo_manager"
    by blast
  from e once 1 2 d 3 show ?thesis
    by blast
qed

end
